theory Spec2Isabelle
  imports Main "HOL-Library.Sublist"
begin

section \<open>Strings as the scripts use them\<close>

text \<open>
  The scripts are Python 3 programs over \<open>str\<close>. A text is modelled as a \<open>string\<close>
  (a \<open>char list\<close>); a \<open>char\<close> is read as a code point below 256, so the model
  covers the Latin-1 range of Python's strings. On that range \<open>str.lower()\<close> works
  character by character: it adds 32 to \<open>A\<close>..\<open>Z\<close> and to the upper-case letters
  192..222 (215, the multiplication sign, excepted) and leaves the rest alone.
\<close>

definition py_is_upper :: "nat \<Rightarrow> bool" where
  "py_is_upper n = ((65 \<le> n \<and> n \<le> 90) \<or> (192 \<le> n \<and> n \<le> 222 \<and> n \<noteq> 215))"

definition py_lower_char :: "char \<Rightarrow> char" where
  "py_lower_char c =
     (if py_is_upper (of_char c) then char_of (of_char c + (32::nat)) else c)"

definition py_lower :: "string \<Rightarrow> string" where
  "py_lower s = map py_lower_char s"

text \<open>Whitespace as \<open>str.isspace\<close> and the pattern \<open>\s\<close> see it.\<close>

definition py_isspace :: "char \<Rightarrow> bool" where
  "py_isspace c =
     ((of_char c :: nat) \<in> set [9, 10, 11, 12, 13, 28, 29, 30, 31, 32, 133, 160])"

text \<open>\<open>s.split(sep)\<close> for a separator of one character: never an empty list.\<close>

fun py_split :: "char \<Rightarrow> string \<Rightarrow> string list" where
  "py_split sep [] = [[]]"
| "py_split sep (c # cs) =
     (let ls = py_split sep cs
      in if c = sep then [] # ls else (c # hd ls) # tl ls)"

text \<open>\<open>str(n)\<close> for a non-negative integer, and \<open>str(i)\<close> for any integer.\<close>

definition digit_char :: "nat \<Rightarrow> char" where
  "digit_char d = char_of (48 + d)"

fun str_nat :: "nat \<Rightarrow> string" where
  "str_nat n = (if n < 10 then [digit_char n] else str_nat (n div 10) @ [digit_char (n mod 10)])"

definition py_str :: "int \<Rightarrow> string" where
  "py_str i = (if i < 0 then CHR ''-'' # str_nat (nat (- i)) else str_nat (nat i))"

text \<open>
  \<open>s.isdigit()\<close> is true of a non-empty string of digits, where the superscript digits
  (code points 178, 179 and 185) count as digits too. \<open>int(s)\<close> strips the whitespace
  that \<open>int\<close> knows (not the separators 28 to 31), takes one optional sign, and then
  wants decimal digits \<open>0\<close> to \<open>9\<close>, where single underscores may stand between
  digits; anything else raises \<open>ValueError\<close>, here \<open>None\<close>.
\<close>

definition is_digit :: "char \<Rightarrow> bool" where
  "is_digit c = (48 \<le> (of_char c :: nat) \<and> (of_char c :: nat) \<le> 57)"

definition py_isdigit :: "string \<Rightarrow> bool" where
  "py_isdigit s =
     (s \<noteq> [] \<and> list_all (\<lambda>c. is_digit c \<or> (of_char c :: nat) \<in> set [178, 179, 185]) s)"

definition digits_value :: "string \<Rightarrow> nat" where
  "digits_value s = foldl (\<lambda>acc c. 10 * acc + (of_char c - 48)) 0 s"

definition py_int_unsigned :: "string \<Rightarrow> nat option" where
  "py_int_unsigned s =
     (if list_all (\<lambda>part. part \<noteq> [] \<and> list_all is_digit part) (py_split (CHR ''_'') s)
      then Some (digits_value (filter is_digit s)) else None)"

definition int_space :: "char \<Rightarrow> bool" where
  "int_space c = ((of_char c :: nat) \<in> set [9, 10, 11, 12, 13, 32, 133, 160])"

definition int_strip :: "string \<Rightarrow> string" where
  "int_strip s = rev (dropWhile int_space (rev (dropWhile int_space s)))"

definition py_int :: "string \<Rightarrow> int option" where
  "py_int s =
     (case int_strip s of
        [] \<Rightarrow> None
      | c # cs \<Rightarrow>
          if c = CHR ''-'' then map_option (\<lambda>n. - int n) (py_int_unsigned cs)
          else if c = CHR ''+'' then map_option int (py_int_unsigned cs)
          else map_option int (py_int_unsigned (c # cs)))"

section \<open>Regular expressions of the \<open>re\<close> module\<close>

text \<open>
  The patterns of the scripts use literals, \<open>.\<close>, character classes (with \<open>\s\<close>),
  \<open>*\<close>, \<open>?\<close> and concatenation, under the flags \<open>re.IGNORECASE\<close> and
  \<open>re.DOTALL\<close>. Only the truth value of \<open>re.search\<close> is used, so a pattern matches
  when some substring of the text is in its language. The matcher works by derivatives;
  \<open>RZero\<close> and \<open>RAlt\<close> are there for the derivatives.
\<close>

record re_flags =
  ignorecase :: bool
  dotall :: bool

datatype citem = Ch char | Space

datatype rexp =
    RZero
  | REps
  | RLit char
  | RDot
  | RCls "citem list"
  | RAlt rexp rexp
  | RSeq rexp rexp
  | ROpt rexp
  | RStar rexp

definition lit_match :: "re_flags \<Rightarrow> char \<Rightarrow> char \<Rightarrow> bool" where
  "lit_match fl x c = (if ignorecase fl then py_lower_char c = py_lower_char x else c = x)"

definition dot_match :: "re_flags \<Rightarrow> char \<Rightarrow> bool" where
  "dot_match fl c = (dotall fl \<or> c \<noteq> CHR 0x0A)"

fun citem_match :: "re_flags \<Rightarrow> citem \<Rightarrow> char \<Rightarrow> bool" where
  "citem_match fl (Ch x) c = lit_match fl x c"
| "citem_match fl Space c = py_isspace c"

definition cls_match :: "re_flags \<Rightarrow> citem list \<Rightarrow> char \<Rightarrow> bool" where
  "cls_match fl items c = list_ex (\<lambda>i. citem_match fl i c) items"

fun nullable :: "rexp \<Rightarrow> bool" where
  "nullable RZero = False"
| "nullable REps = True"
| "nullable (RLit x) = False"
| "nullable RDot = False"
| "nullable (RCls items) = False"
| "nullable (RAlt r s) = (nullable r \<or> nullable s)"
| "nullable (RSeq r s) = (nullable r \<and> nullable s)"
| "nullable (ROpt r) = True"
| "nullable (RStar r) = True"

fun deriv :: "re_flags \<Rightarrow> char \<Rightarrow> rexp \<Rightarrow> rexp" where
  "deriv fl c RZero = RZero"
| "deriv fl c REps = RZero"
| "deriv fl c (RLit x) = (if lit_match fl x c then REps else RZero)"
| "deriv fl c RDot = (if dot_match fl c then REps else RZero)"
| "deriv fl c (RCls items) = (if cls_match fl items c then REps else RZero)"
| "deriv fl c (RAlt r s) = RAlt (deriv fl c r) (deriv fl c s)"
| "deriv fl c (RSeq r s) =
     (if nullable r then RAlt (RSeq (deriv fl c r) s) (deriv fl c s)
      else RSeq (deriv fl c r) s)"
| "deriv fl c (ROpt r) = deriv fl c r"
| "deriv fl c (RStar r) = RSeq (deriv fl c r) (RStar r)"

text \<open>\<open>re.match\<close>: some prefix of the text matches. \<open>re.search\<close>: tried at every
  start position.\<close>

fun re_match :: "re_flags \<Rightarrow> rexp \<Rightarrow> string \<Rightarrow> bool" where
  "re_match fl r [] = nullable r"
| "re_match fl r (c # cs) = (nullable r \<or> re_match fl (deriv fl c r) cs)"

fun re_search :: "re_flags \<Rightarrow> rexp \<Rightarrow> string \<Rightarrow> bool" where
  "re_search fl r [] = nullable r"
| "re_search fl r (c # cs) = (re_match fl r (c # cs) \<or> re_search fl r cs)"

definition seqs :: "rexp list \<Rightarrow> rexp" where
  "seqs rs = foldr RSeq rs REps"

definition lits :: "string \<Rightarrow> rexp" where
  "lits s = seqs (map RLit s)"

definition NOFLAGS :: re_flags where
  "NOFLAGS = \<lparr>ignorecase = False, dotall = False\<rparr>"

definition IGNORECASE :: re_flags where
  "IGNORECASE = \<lparr>ignorecase = True, dotall = False\<rparr>"

definition DOTALL :: re_flags where
  "DOTALL = \<lparr>ignorecase = False, dotall = True\<rparr>"

definition IGNORECASE_DOTALL :: re_flags where
  "IGNORECASE_DOTALL = \<lparr>ignorecase = True, dotall = True\<rparr>"

subsection \<open>The language of a pattern\<close>

inductive_set star_lang :: "string set \<Rightarrow> string set" for A :: "string set" where
  star_nil: "[] \<in> star_lang A"
| star_app: "u \<in> A \<Longrightarrow> v \<in> star_lang A \<Longrightarrow> u @ v \<in> star_lang A"

fun lang :: "re_flags \<Rightarrow> rexp \<Rightarrow> string set" where
  "lang fl RZero = {}"
| "lang fl REps = {[]}"
| "lang fl (RLit x) = {[c] |c. lit_match fl x c}"
| "lang fl RDot = {[c] |c. dot_match fl c}"
| "lang fl (RCls items) = {[c] |c. cls_match fl items c}"
| "lang fl (RAlt r s) = lang fl r \<union> lang fl s"
| "lang fl (RSeq r s) = {u @ v |u v. u \<in> lang fl r \<and> v \<in> lang fl s}"
| "lang fl (ROpt r) = insert [] (lang fl r)"
| "lang fl (RStar r) = star_lang (lang fl r)"

lemma star_lang_Cons:
  "c # w \<in> star_lang A \<longleftrightarrow> (\<exists>u v. w = u @ v \<and> c # u \<in> A \<and> v \<in> star_lang A)"
proof
  assume "c # w \<in> star_lang A"
  then show "\<exists>u v. w = u @ v \<and> c # u \<in> A \<and> v \<in> star_lang A"
  proof (induction "c # w" arbitrary: w rule: star_lang.induct)
    case (star_app u v)
    show ?case
    proof (cases u)
      case Nil
      with star_app show ?thesis by simp
    next
      case (Cons d u')
      with star_app.hyps(1,2) star_app.hyps(4) show ?thesis by auto
    qed
  qed
next
  assume "\<exists>u v. w = u @ v \<and> c # u \<in> A \<and> v \<in> star_lang A"
  then obtain u v where "w = u @ v" "c # u \<in> A" "v \<in> star_lang A" by blast
  then have "(c # u) @ v \<in> star_lang A" by (blast intro: star_app)
  with \<open>w = u @ v\<close> show "c # w \<in> star_lang A" by simp
qed

lemma nullable_lang: "nullable r \<longleftrightarrow> [] \<in> lang fl r"
  by (induction r) (auto intro: star_nil)

lemma deriv_lang: "w \<in> lang fl (deriv fl c r) \<longleftrightarrow> c # w \<in> lang fl r"
proof (induction r arbitrary: w)
  case (RSeq r s)
  show ?case
  proof
    assume "w \<in> lang fl (deriv fl c (RSeq r s))"
    then consider (left) u v where "w = u @ v" "u \<in> lang fl (deriv fl c r)" "v \<in> lang fl s"
      | (right) "nullable r" "w \<in> lang fl (deriv fl c s)"
      by (auto split: if_splits)
    then show "c # w \<in> lang fl (RSeq r s)"
    proof cases
      case left
      then have "c # u \<in> lang fl r" using RSeq.IH(1) by simp
      with left have "(c # u) @ v \<in> lang fl (RSeq r s)" by (simp del: append_Cons) blast
      with left show ?thesis by simp
    next
      case right
      then have "[] \<in> lang fl r" "c # w \<in> lang fl s"
        using RSeq.IH(2) nullable_lang by simp_all
      then have "[] @ (c # w) \<in> lang fl (RSeq r s)" by (simp del: append_Nil) blast
      then show ?thesis by simp
    qed
  next
    assume "c # w \<in> lang fl (RSeq r s)"
    then obtain u v where uv: "c # w = u @ v" "u \<in> lang fl r" "v \<in> lang fl s" by auto
    show "w \<in> lang fl (deriv fl c (RSeq r s))"
    proof (cases u)
      case Nil
      with uv have "nullable r" "w \<in> lang fl (deriv fl c s)"
        using RSeq.IH(2) nullable_lang by simp_all
      then show ?thesis by simp
    next
      case (Cons d u')
      with uv have "w = u' @ v" "u' \<in> lang fl (deriv fl c r)"
        using RSeq.IH(1) by simp_all
      with uv(3) show ?thesis by auto
    qed
  qed
next
  case (RStar r)
  show ?case using RStar.IH by (simp add: star_lang_Cons)
qed auto

lemma re_match_lang: "re_match fl r s \<longleftrightarrow> (\<exists>u v. s = u @ v \<and> u \<in> lang fl r)"
proof (induction s arbitrary: r)
  case Nil
  show ?case by (simp add: nullable_lang [of r fl])
next
  case (Cons c cs)
  have "(\<exists>u v. c # cs = u @ v \<and> u \<in> lang fl r)
        \<longleftrightarrow> [] \<in> lang fl r \<or> (\<exists>u v. cs = u @ v \<and> c # u \<in> lang fl r)"
    by (auto simp: Cons_eq_append_conv)
  then show ?case
    using Cons.IH [of "deriv fl c r"] by (simp add: nullable_lang [of r fl] deriv_lang)
qed

lemma re_search_lang:
  "re_search fl r s \<longleftrightarrow> (\<exists>a u b. s = a @ u @ b \<and> u \<in> lang fl r)"
proof (induction s)
  case Nil
  show ?case by (simp add: nullable_lang [of r fl])
next
  case (Cons c cs)
  have "(\<exists>a u b. c # cs = a @ u @ b \<and> u \<in> lang fl r)
        \<longleftrightarrow> (\<exists>u b. c # cs = u @ b \<and> u \<in> lang fl r)
            \<or> (\<exists>a u b. cs = a @ u @ b \<and> u \<in> lang fl r)"
  proof
    assume "\<exists>a u b. c # cs = a @ u @ b \<and> u \<in> lang fl r"
    then obtain a u b where h: "c # cs = a @ u @ b" "u \<in> lang fl r" by blast
    show "(\<exists>u b. c # cs = u @ b \<and> u \<in> lang fl r)
            \<or> (\<exists>a u b. cs = a @ u @ b \<and> u \<in> lang fl r)"
    proof (cases a)
      case Nil
      with h show ?thesis by auto
    next
      case (Cons d a')
      with h have "cs = a' @ u @ b" by simp
      with h(2) show ?thesis by blast
    qed
  next
    assume "(\<exists>u b. c # cs = u @ b \<and> u \<in> lang fl r)
            \<or> (\<exists>a u b. cs = a @ u @ b \<and> u \<in> lang fl r)"
    then show "\<exists>a u b. c # cs = a @ u @ b \<and> u \<in> lang fl r"
    proof
      assume "\<exists>u b. c # cs = u @ b \<and> u \<in> lang fl r"
      then obtain u b where "c # cs = [] @ u @ b" "u \<in> lang fl r" by auto
      then show ?thesis by blast
    next
      assume "\<exists>a u b. cs = a @ u @ b \<and> u \<in> lang fl r"
      then obtain a u b where "c # cs = (c # a) @ u @ b" "u \<in> lang fl r" by auto
      then show ?thesis by blast
    qed
  qed
  then show ?case
    using Cons.IH by (simp only: re_search.simps re_match_lang)
qed

section \<open>The detectors\<close>

definition mon_claude4_patterns :: "string list" where
  "mon_claude4_patterns = [''claude-4'', ''Claude 4'', ''claude 4'', ''CLAUDE-4'', ''Claude-4'']"

definition mon_mentions_claude4 :: "string \<Rightarrow> bool" where
  "mon_mentions_claude4 s =
     list_ex (\<lambda>pattern. sublist (py_lower pattern) (py_lower s)) mon_claude4_patterns"

definition mon_check_for_claude4 :: "string \<Rightarrow> string \<Rightarrow> bool" where
  "mon_check_for_claude4 content title =
     (if mon_mentions_claude4 content then True
      else if mon_mentions_claude4 title then True
      else False)"

definition punct :: rexp where
  "punct = RCls [Ch (CHR ''.''), Ch (CHR '')''), Ch (CHR ''-'')]"

definition spaces :: rexp where
  "spaces = RStar (RCls [Space])"

definition any_text :: rexp where
  "any_text = RStar RDot"

definition newline :: rexp where
  "newline = RLit (CHR 0x0A)"

definition option_patterns :: "rexp list" where
  "option_patterns =
    [seqs [RLit (CHR ''1''), spaces, punct, spaces, any_text, newline, any_text,
           RLit (CHR ''2''), spaces, punct, spaces, any_text, newline, any_text,
           RLit (CHR ''3''), spaces, punct],
     seqs [lits ''Select'', any_text, RLit (CHR '':''), spaces, newline, any_text,
           RLit (CHR ''1''), any_text, newline, any_text,
           RLit (CHR ''2''), any_text, newline, any_text, RLit (CHR ''3'')],
     seqs [lits ''[1]'', any_text, lits ''[2]'', any_text, lits ''[3]''],
     seqs [lits ''Option 1'', any_text, lits ''Option 2'', any_text, lits ''Option 3'']]"

definition mon_check_for_options_menu :: "string \<Rightarrow> bool" where
  "mon_check_for_options_menu content =
     list_ex (\<lambda>pattern. re_search IGNORECASE_DOTALL pattern content) option_patterns"

definition sep_opt :: rexp where
  "sep_opt = ROpt (RCls [Space, Ch (CHR ''-'')])"

definition ocr_claude4_patterns :: "rexp list" where
  "ocr_claude4_patterns =
    [seqs [lits ''claude'', sep_opt, RLit (CHR ''4'')],
     seqs [lits ''Claude'', sep_opt, RLit (CHR ''4'')],
     seqs [lits ''CLAUDE'', sep_opt, RLit (CHR ''4'')],
     seqs [lits ''opus'', sep_opt, RLit (CHR ''4'')],
     seqs [lits ''Opus'', sep_opt, RLit (CHR ''4'')]]"

definition ocr_check_for_claude4 :: "string \<Rightarrow> bool" where
  "ocr_check_for_claude4 text =
     list_ex (\<lambda>pattern. re_search IGNORECASE pattern text) ocr_claude4_patterns"

definition menu_patterns :: "rexp list" where
  "menu_patterns =
    [lits ''select'', lits ''choose'', lits ''option'', lits ''choice'', lits ''pick'',
     seqs [lits ''which'', any_text, lits ''model''],
     seqs [lits ''available'', any_text, lits ''models'']]"

definition sequential_123 :: rexp where
  "sequential_123 =
     seqs [RLit (CHR ''1''), any_text, RLit (CHR ''2''), any_text, RLit (CHR ''3'')]"

definition ocr_check_for_options_menu :: "string \<Rightarrow> bool" where
  "ocr_check_for_options_menu text =
     (let lines = py_split (CHR 0x0A) text;
          has_1 = list_ex (\<lambda>line. sublist ''1'' line) lines;
          has_2 = list_ex (\<lambda>line. sublist ''2'' line) lines;
          has_3 = list_ex (\<lambda>line. sublist ''3'' line) lines
      in if has_1 \<and> has_2 \<and> has_3 then
           (if list_ex (\<lambda>pattern. re_search NOFLAGS pattern (py_lower text)) menu_patterns
            then True
            else if re_search DOTALL sequential_123 text then True
            else False)
         else False)"

section \<open>Facts about patterns and detectors\<close>

text \<open>A character is uncased when no other character has the same lower-case form.\<close>

definition uncased :: "char \<Rightarrow> bool" where
  "uncased x =
     (\<not> py_is_upper (of_char x) \<and> \<not> (32 \<le> (of_char x :: nat) \<and> py_is_upper (of_char x - 32)))"

lemma py_lower_char_uncased:
  assumes "uncased x" "py_lower_char c = py_lower_char x"
  shows "c = x"
proof -
  have x: "py_lower_char x = x" using assms(1) by (simp add: uncased_def py_lower_char_def)
  show ?thesis
  proof (cases "py_is_upper (of_char c)")
    case False
    then show ?thesis using assms(2) x by (simp add: py_lower_char_def)
  next
    case True
    then have lt: "(of_char c :: nat) + 32 < 256" by (auto simp: py_is_upper_def)
    from True assms(2) x have "char_of (of_char c + (32::nat)) = x"
      by (simp add: py_lower_char_def)
    then have "(of_char x :: nat) = (of_char c + 32) mod 256"
      by (metis of_char_of)
    with lt have "(of_char x :: nat) = of_char c + 32" by simp
    with True assms(1) show ?thesis by (simp add: uncased_def)
  qed
qed

lemma lit_match_uncased: "uncased x \<Longrightarrow> lit_match fl x c \<longleftrightarrow> c = x"
  by (auto simp: lit_match_def dest: py_lower_char_uncased)

lemma lit_match_icase: "ignorecase fl \<Longrightarrow> lit_match fl x c \<longleftrightarrow> py_lower_char c = py_lower_char x"
  by (simp add: lit_match_def)

lemma lit_match_exact: "\<not> ignorecase fl \<Longrightarrow> lit_match fl x c \<longleftrightarrow> c = x"
  by (simp add: lit_match_def)

lemma uncased_digits: "uncased (CHR ''1'')" "uncased (CHR ''2'')" "uncased (CHR ''3'')" "uncased (CHR ''4'')"
  "uncased (CHR ''-'')" "uncased (CHR '' '')" "uncased (CHR 0x0A)"
  by (simp_all add: uncased_def py_is_upper_def)

subsection \<open>Sequences of patterns and literal strings\<close>

lemma lang_seqs_Nil: "lang fl (seqs []) = {[]}"
  by (simp add: seqs_def)

lemma lang_seqs_Cons:
  "lang fl (seqs (r # rs)) = {u @ v |u v. u \<in> lang fl r \<and> v \<in> lang fl (seqs rs)}"
  by (simp add: seqs_def)

lemma lang_seqs_ConsI:
  "u \<in> lang fl r \<Longrightarrow> v \<in> lang fl (seqs rs) \<Longrightarrow> u @ v \<in> lang fl (seqs (r # rs))"
  by (auto simp: lang_seqs_Cons)

lemma lang_RLit_RSeq:
  "u \<in> lang fl (RSeq (RLit x) r) \<longleftrightarrow> (\<exists>c v. u = c # v \<and> lit_match fl x c \<and> v \<in> lang fl r)"
proof
  assume "u \<in> lang fl (RSeq (RLit x) r)"
  then show "\<exists>c v. u = c # v \<and> lit_match fl x c \<and> v \<in> lang fl r" by auto
next
  assume "\<exists>c v. u = c # v \<and> lit_match fl x c \<and> v \<in> lang fl r"
  then obtain c v where h: "u = c # v" "lit_match fl x c" "v \<in> lang fl r" by blast
  then have "[c] \<in> lang fl (RLit x)" by simp
  with h(3) have "[c] @ v \<in> lang fl (RSeq (RLit x) r)"
    by (simp only: lang.simps) blast
  with h(1) show "u \<in> lang fl (RSeq (RLit x) r)" by simp
qed

lemma lang_lits: "u \<in> lang fl (lits s) \<longleftrightarrow> list_all2 (lit_match fl) s u"
proof (induction s arbitrary: u)
  case Nil
  show ?case by (simp add: lits_def seqs_def)
next
  case (Cons x s)
  have "lits (x # s) = RSeq (RLit x) (lits s)" by (simp add: lits_def seqs_def)
  then show ?case using Cons.IH by (simp only: lang_RLit_RSeq) (auto simp: list_all2_Cons1)
qed

lemma lang_lits_icase:
  "ignorecase fl \<Longrightarrow> u \<in> lang fl (lits s) \<longleftrightarrow> py_lower u = py_lower s"
proof -
  assume ic: "ignorecase fl"
  have "list_all2 (lit_match fl) s u \<longleftrightarrow> map py_lower_char u = map py_lower_char s" for s u
  proof (induction s arbitrary: u)
    case Nil show ?case by auto
  next
    case (Cons x s)
    show ?case using Cons.IH ic by (cases u) (auto simp: lit_match_def)
  qed
  then show ?thesis by (simp add: lang_lits py_lower_def)
qed

lemma lang_lits_exact:
  "\<not> ignorecase fl \<Longrightarrow> u \<in> lang fl (lits s) \<longleftrightarrow> u = s"
proof -
  assume ic: "\<not> ignorecase fl"
  have "list_all2 (lit_match fl) s u \<longleftrightarrow> u = s" for s u
  proof (induction s arbitrary: u)
    case Nil show ?case by auto
  next
    case (Cons x s)
    show ?case using Cons.IH ic by (cases u) (auto simp: lit_match_def)
  qed
  then show ?thesis by (simp add: lang_lits)
qed

lemma lang_any_text: "dotall fl \<Longrightarrow> w \<in> lang fl any_text"
proof (induction w)
  case Nil
  show ?case by (simp add: any_text_def star_nil)
next
  case (Cons c w)
  then have "[c] @ w \<in> star_lang (lang fl RDot)"
    by (intro star_app) (auto simp: any_text_def dot_match_def)
  then show ?case by (simp add: any_text_def)
qed

lemma lang_spaces: "list_all py_isspace w \<Longrightarrow> w \<in> lang fl spaces"
proof (induction w)
  case Nil
  show ?case by (simp add: spaces_def star_nil)
next
  case (Cons c w)
  then have "[c] @ w \<in> star_lang (lang fl (RCls [Space]))"
    by (intro star_app) (auto simp: spaces_def cls_match_def)
  then show ?case by (simp add: spaces_def)
qed

subsection \<open>Characters every match must contain\<close>

fun req :: "rexp \<Rightarrow> string" where
  "req (RLit x) = (if uncased x then [x] else [])"
| "req (RSeq r s) = req r @ req s"
| "req r = []"

lemma req_subseq: "u \<in> lang fl r \<Longrightarrow> subseq (req r) u"
proof (induction r arbitrary: u)
  case (RLit x)
  then show ?case by (auto simp: lit_match_uncased)
next
  case (RSeq r s)
  then show ?case by (auto intro: list_emb_append_mono)
qed simp_all

lemma req_seqs: "req (seqs rs) = concat (map req rs)"
  by (induction rs) (simp_all add: seqs_def)

lemma subseq_123:
  "subseq ''123'' t \<longleftrightarrow> (\<exists>a b c d. t = a @ CHR ''1'' # b @ CHR ''2'' # c @ CHR ''3'' # d)"
proof
  assume "subseq ''123'' t"
  then obtain a t1 where 1: "t = a @ CHR ''1'' # t1" "subseq ''23'' t1"
    by (auto dest: list_emb_ConsD)
  then obtain b t2 where 2: "t1 = b @ CHR ''2'' # t2" "subseq ''3'' t2"
    by (auto dest: list_emb_ConsD)
  then obtain c d where 3: "t2 = c @ CHR ''3'' # d"
    by (auto dest: list_emb_ConsD)
  from 1 2 3 show "\<exists>a b c d. t = a @ CHR ''1'' # b @ CHR ''2'' # c @ CHR ''3'' # d" by auto
next
  assume "\<exists>a b c d. t = a @ CHR ''1'' # b @ CHR ''2'' # c @ CHR ''3'' # d"
  then obtain a b c d where t: "t = a @ CHR ''1'' # b @ CHR ''2'' # c @ CHR ''3'' # d" by blast
  have "subseq ([] @ [CHR ''1''] @ [] @ [CHR ''2''] @ [] @ [CHR ''3''] @ [])
          (a @ [CHR ''1''] @ b @ [CHR ''2''] @ c @ [CHR ''3''] @ d)"
    by (intro list_emb_append_mono) simp_all
  with t show "subseq ''123'' t" by simp
qed

lemma option_patterns_req_all: "list_all (\<lambda>p. subseq ''123'' (req p)) option_patterns"
  by code_simp

lemma option_patterns_req:
  "p \<in> set option_patterns \<Longrightarrow> subseq ''123'' (req p)"
  using option_patterns_req_all by (simp add: list_all_iff)


subsection \<open>Facts about the detectors\<close>

lemma sublist_single: "sublist [c] l \<longleftrightarrow> c \<in> set l"
  by (auto simp: sublist_def in_set_conv_decomp)

lemma py_split_not_Nil: "py_split sep s \<noteq> []"
  by (induction s) (simp_all add: Let_def)

lemma py_split_chars:
  "c \<noteq> sep \<Longrightarrow> (\<exists>l \<in> set (py_split sep s). c \<in> set l) \<longleftrightarrow> c \<in> set s"
proof (induction s)
  case Nil
  show ?case by simp
next
  case (Cons d s)
  obtain l ls where ls: "py_split sep s = l # ls"
    using py_split_not_Nil [of sep s] by (cases "py_split sep s") auto
  show ?case using Cons ls by (auto simp: Let_def)
qed

lemma line_has_char:
  "c \<noteq> CHR 0x0A \<Longrightarrow>
     list_ex (\<lambda>line. sublist [c] line) (py_split (CHR 0x0A) t) \<longleftrightarrow> c \<in> set t"
  using py_split_chars [of c "CHR 0x0A" t] by (simp add: list_ex_iff sublist_single)

lemma ocr_menu_iff:
  "ocr_check_for_options_menu t \<longleftrightarrow>
     CHR ''1'' \<in> set t \<and> CHR ''2'' \<in> set t \<and> CHR ''3'' \<in> set t \<and>
     (list_ex (\<lambda>pattern. re_search NOFLAGS pattern (py_lower t)) menu_patterns
      \<or> re_search DOTALL sequential_123 t)"
  by (auto simp: ocr_check_for_options_menu_def Let_def line_has_char)

lemma sequential_123_lang:
  "CHR ''1'' # b @ CHR ''2'' # c @ [CHR ''3''] \<in> lang DOTALL sequential_123"
proof -
  have d: "dotall DOTALL" "\<not> ignorecase DOTALL" by (simp_all add: DOTALL_def)
  have "[CHR ''1''] @ b @ [CHR ''2''] @ c @ [CHR ''3''] @ [] \<in> lang DOTALL sequential_123"
    unfolding sequential_123_def
    by (intro lang_seqs_ConsI lang_any_text d) (simp_all add: lang_seqs_Nil lit_match_def d)
  then show ?thesis by simp
qed

lemma subseq_123_search: "subseq ''123'' t \<Longrightarrow> re_search DOTALL sequential_123 t"
proof -
  assume "subseq ''123'' t"
  then obtain a b c d where "t = a @ (CHR ''1'' # b @ CHR ''2'' # c @ [CHR ''3'']) @ d"
    by (auto simp: subseq_123)
  then show ?thesis using sequential_123_lang [of b c] by (auto simp only: re_search_lang)
qed

lemma subseq_123_set:
  "subseq ''123'' t \<Longrightarrow> CHR ''1'' \<in> set t \<and> CHR ''2'' \<in> set t \<and> CHR ''3'' \<in> set t"
  by (auto simp: subseq_123)

lemma mon_menu_subseq: "mon_check_for_options_menu t \<Longrightarrow> subseq ''123'' t"
proof -
  assume "mon_check_for_options_menu t"
  then obtain p where p: "p \<in> set option_patterns" "re_search IGNORECASE_DOTALL p t"
    by (auto simp: mon_check_for_options_menu_def list_ex_iff)
  then obtain a u b where u: "t = a @ u @ b" "u \<in> lang IGNORECASE_DOTALL p"
    by (auto simp only: re_search_lang)
  have "subseq ''123'' (req p)" using p(1) by (rule option_patterns_req)
  also have "subseq (req p) u" using u(2) by (rule req_subseq)
  also have "subseq u t" unfolding u(1) by (intro sublist_imp_subseq sublist_appendI)
  finally show ?thesis .
qed

lemma literal_search: "sublist s t \<Longrightarrow> re_search NOFLAGS (lits s) t"
  by (auto simp: sublist_def re_search_lang lang_lits_exact NOFLAGS_def)

lemma sublist_py_lower: "sublist w t \<Longrightarrow> sublist (py_lower w) (py_lower t)"
proof -
  assume "sublist w t"
  then obtain a b where "t = a @ w @ b" by (auto simp: sublist_def)
  then have "py_lower t = py_lower a @ py_lower w @ py_lower b" by (simp add: py_lower_def)
  then show ?thesis by (simp only: sublist_appendI)
qed

lemma py_lower_eq_appendD:
  "py_lower w = a @ b \<Longrightarrow> \<exists>u v. w = u @ v \<and> py_lower u = a \<and> py_lower v = b"
  by (auto simp: py_lower_def map_eq_append_conv)

lemma py_lower_eq_singleD:
  "uncased x \<Longrightarrow> py_lower_char x = x \<Longrightarrow> py_lower v = [x] \<Longrightarrow> v = [x]"
  by (auto simp: py_lower_def map_eq_Cons_conv dest: py_lower_char_uncased)

lemma ocr_claude_lang:
  assumes "py_lower w1 = ''claude''" "s = CHR ''-'' \<or> s = CHR '' ''"
  shows "w1 @ [s] @ [CHR ''4''] @ []
           \<in> lang IGNORECASE (seqs [lits ''claude'', sep_opt, RLit (CHR ''4'')])"
proof -
  have ic: "ignorecase IGNORECASE" by (simp add: IGNORECASE_def)
  have "py_lower ''claude'' = ''claude''" by code_simp
  then have 1: "w1 \<in> lang IGNORECASE (lits ''claude'')"
    using assms(1) by (simp add: lang_lits_icase [OF ic])
  have 2: "[s] \<in> lang IGNORECASE sep_opt"
    using assms(2) by (auto simp: sep_opt_def cls_match_def lit_match_def py_isspace_def)
  have 3: "[CHR ''4''] \<in> lang IGNORECASE (RLit (CHR ''4''))"
    by (simp add: lit_match_def)
  show ?thesis by (intro lang_seqs_ConsI 1 2 3) (simp add: lang_seqs_Nil)
qed

lemma lower_claude_forms:
  assumes "py_lower w = ''claude'' @ [s] @ ''4''" "s = CHR ''-'' \<or> s = CHR '' ''"
  shows "\<exists>w1. w = w1 @ [s] @ [CHR ''4''] @ [] \<and> py_lower w1 = ''claude''"
proof -
  from py_lower_eq_appendD [OF assms(1)]
  obtain w1 v where 1: "w = w1 @ v" "py_lower w1 = ''claude''" "py_lower v = [s] @ ''4''"
    by (elim exE conjE)
  from py_lower_eq_appendD [OF 1(3)]
  obtain v1 v2 where 2: "v = v1 @ v2" "py_lower v1 = [s]" "py_lower v2 = ''4''"
    by (elim exE conjE)
  have s: "uncased s" "py_lower_char s = s"
    using assms(2) by (auto simp: uncased_digits py_lower_char_def py_is_upper_def)
  have v1: "v1 = [s]" using s 2(2) by (rule py_lower_eq_singleD)
  have "py_lower_char (CHR ''4'') = CHR ''4''"
    by (simp add: py_lower_char_def py_is_upper_def)
  with uncased_digits(4) have v2: "v2 = [CHR ''4'']"
    using 2(3) by (rule py_lower_eq_singleD)
  have "w = w1 @ [s] @ [CHR ''4''] @ []"
    unfolding 1(1) 2(1) v1 v2 by simp
  with 1(2) show ?thesis by (intro exI conjI)
qed

lemma ocr_claude4_any_casing:
  assumes "py_lower w = ''claude-4'' \<or> py_lower w = ''claude 4''" "sublist w t"
  shows "ocr_check_for_claude4 t"
proof -
  from assms(1) obtain s where s: "py_lower w = ''claude'' @ [s] @ ''4''" "s = CHR ''-'' \<or> s = CHR '' ''"
    by auto
  then obtain w1 where w1: "w = w1 @ [s] @ [CHR ''4''] @ []" "py_lower w1 = ''claude''"
    by (blast dest: lower_claude_forms)
  have "w \<in> lang IGNORECASE (seqs [lits ''claude'', sep_opt, RLit (CHR ''4'')])"
    unfolding w1(1) using w1(2) s(2) by (rule ocr_claude_lang)
  moreover obtain a b where "t = a @ w @ b" using assms(2) by (auto simp: sublist_def)
  ultimately have "re_search IGNORECASE (seqs [lits ''claude'', sep_opt, RLit (CHR ''4'')]) t"
    by (auto simp only: re_search_lang)
  then show ?thesis by (simp add: ocr_check_for_claude4_def ocr_claude4_patterns_def)
qed

lemma mon_patterns_lower:
  "map py_lower mon_claude4_patterns =
     [''claude-4'', ''claude 4'', ''claude 4'', ''claude-4'', ''claude-4'']"
  by code_simp

lemma mon_mentions_iff:
  "mon_mentions_claude4 s \<longleftrightarrow>
     sublist ''claude-4'' (py_lower s) \<or> sublist ''claude 4'' (py_lower s)"
proof -
  have "mon_mentions_claude4 s \<longleftrightarrow>
          list_ex (\<lambda>p. sublist p (py_lower s)) (map py_lower mon_claude4_patterns)"
    by (simp add: mon_mentions_claude4_def list_ex_iff)
  then show ?thesis unfolding mon_patterns_lower by auto
qed

lemma mon_claude4_any_casing:
  assumes "py_lower w = ''claude-4'' \<or> py_lower w = ''claude 4''" "sublist w t"
  shows "mon_mentions_claude4 t"
  using assms sublist_py_lower [OF assms(2)] by (auto simp: mon_mentions_iff)

lemma sublist_lowerD:
  "sublist p (py_lower t) \<Longrightarrow> \<exists>w. sublist w t \<and> py_lower w = p"
proof -
  assume "sublist p (py_lower t)"
  then obtain a b where "py_lower t = a @ p @ b" by (auto simp: sublist_def)
  then obtain u v where 1: "t = u @ v" "py_lower v = p @ b" by (blast dest: py_lower_eq_appendD)
  then obtain w z where 2: "v = w @ z" "py_lower w = p" by (blast dest: py_lower_eq_appendD)
  from 1 2 have "sublist w t" by (auto simp: sublist_def)
  with 2 show ?thesis by blast
qed

lemma mon_mentions_imp_ocr: "mon_mentions_claude4 t \<Longrightarrow> ocr_check_for_claude4 t"
  by (auto simp: mon_mentions_iff dest!: sublist_lowerD intro: ocr_claude4_any_casing)

lemma mon_menu_imp_ocr: "mon_check_for_options_menu t \<Longrightarrow> ocr_check_for_options_menu t"
  by (auto simp: ocr_menu_iff dest!: mon_menu_subseq dest: subseq_123_set subseq_123_search)

lemma py_lower_Select: "py_lower ''Select'' = ''select''"
  by code_simp

lemma select_menu_lang:
  assumes "py_lower w = ''select''" "list_all py_isspace sp"
  shows "w @ m @ '':'' @ sp @ ''\<newline>'' @ x1 @ ''1'' @ x2 @ ''\<newline>'' @ x3 @ ''2'' @ x4
           @ ''\<newline>'' @ x5 @ ''3'' @ []
         \<in> lang IGNORECASE_DOTALL
             (seqs [lits ''Select'', any_text, RLit (CHR '':''), spaces, newline, any_text,
                    RLit (CHR ''1''), any_text, newline, any_text,
                    RLit (CHR ''2''), any_text, newline, any_text, RLit (CHR ''3'')])"
proof -
  have fl: "ignorecase IGNORECASE_DOTALL" "dotall IGNORECASE_DOTALL"
    by (simp_all add: IGNORECASE_DOTALL_def)
  have w: "w \<in> lang IGNORECASE_DOTALL (lits ''Select'')"
    using assms(1) by (simp add: lang_lits_icase [OF fl(1)] py_lower_Select)
  have lit: "[c] \<in> lang IGNORECASE_DOTALL (RLit c)" for c
    by (simp add: lit_match_def)
  have nl: "''\<newline>'' \<in> lang IGNORECASE_DOTALL newline"
    by (simp add: newline_def lit_match_def)
  show ?thesis
    by (intro lang_seqs_ConsI w lit nl lang_any_text [OF fl(2)] lang_spaces [OF assms(2)])
       (simp add: lang_seqs_Nil)
qed

lemma mon_menu_select_form:
  assumes "py_lower w = ''select''" "list_all py_isspace sp"
  shows "mon_check_for_options_menu
           (a @ (w @ m @ '':'' @ sp @ ''\<newline>'' @ x1 @ ''1'' @ x2 @ ''\<newline>'' @ x3 @ ''2'' @ x4
              @ ''\<newline>'' @ x5 @ ''3'') @ b)"
proof -
  let ?p = "seqs [lits ''Select'', any_text, RLit (CHR '':''), spaces, newline, any_text,
                    RLit (CHR ''1''), any_text, newline, any_text,
                    RLit (CHR ''2''), any_text, newline, any_text, RLit (CHR ''3'')]"
  let ?u = "w @ m @ '':'' @ sp @ ''\<newline>'' @ x1 @ ''1'' @ x2 @ ''\<newline>'' @ x3 @ ''2'' @ x4
              @ ''\<newline>'' @ x5 @ ''3''"
  have "?u @ [] \<in> lang IGNORECASE_DOTALL ?p"
    using select_menu_lang [OF assms, of m x1 x2 x3 x4 x5] by (simp only: append_assoc)
  then have "?u \<in> lang IGNORECASE_DOTALL ?p" by (simp only: append_Nil2)
  then have "re_search IGNORECASE_DOTALL ?p (a @ ?u @ b)"
    unfolding re_search_lang by blast
  moreover have "?p \<in> set option_patterns" by (simp add: option_patterns_def)
  ultimately show ?thesis
    unfolding mon_check_for_options_menu_def list_ex_iff by blast
qed

lemma ocr_menu_select:
  assumes "CHR ''1'' \<in> set t" "CHR ''2'' \<in> set t" "CHR ''3'' \<in> set t"
    "sublist ''select'' (py_lower t)"
  shows "ocr_check_for_options_menu t"
proof -
  have "re_search NOFLAGS (lits ''select'') (py_lower t)"
    using assms(4) by (rule literal_search)
  then have "list_ex (\<lambda>pattern. re_search NOFLAGS pattern (py_lower t)) menu_patterns"
    by (simp add: menu_patterns_def)
  with assms(1-3) show ?thesis by (simp add: ocr_menu_iff)
qed

lemma no_3_no_menu:
  assumes "CHR ''3'' \<notin> set t"
  shows "\<not> ocr_check_for_options_menu t" "\<not> mon_check_for_options_menu t"
  using assms mon_menu_subseq [of t] subseq_123_set [of t] by (auto simp: ocr_menu_iff)

text \<open>
  C5 (as amended). The OCR script's menu detector returns true for every text that
  contains the characters 1, 2 and 3 and, in any casing, the word select; both scripts'
  detectors return false for every text without a 3. The accessibility script's detector
  does not react to the word select alone: it returns true where the text has, in any
  casing, select, later a colon, optional whitespace and a line break, and then 1, 2
  and 3 with a line break between them.
\<close>

theorem menu_detection:
  "(CHR ''1'' \<in> set t \<and> CHR ''2'' \<in> set t \<and> CHR ''3'' \<in> set t
      \<and> sublist ''select'' (py_lower t) \<longrightarrow> ocr_check_for_options_menu t)
   \<and> (CHR ''3'' \<notin> set t \<longrightarrow>
        \<not> ocr_check_for_options_menu t \<and> \<not> mon_check_for_options_menu t)
   \<and> (py_lower w = ''select'' \<and> list_all py_isspace sp \<longrightarrow>
        mon_check_for_options_menu
          (a @ (w @ m @ '':'' @ sp @ ''\<newline>'' @ x1 @ ''1'' @ x2 @ ''\<newline>'' @ x3 @ ''2'' @ x4
             @ ''\<newline>'' @ x5 @ ''3'') @ b))"
  using ocr_menu_select [of t] no_3_no_menu [of t]
    mon_menu_select_form [of w sp a m x1 x2 x3 x4 x5 b]
  by blast

theorem menu_detection_witness:
  "ocr_check_for_options_menu ''select\<newline>1\<newline>2\<newline>3''
   \<and> \<not> ocr_check_for_options_menu ''select\<newline>1\<newline>2''
   \<and> \<not> mon_check_for_options_menu ''select\<newline>1\<newline>2''
   \<and> mon_check_for_options_menu ''SELECT one: \<newline>1 a\<newline>2 b\<newline>3 c''"
proof -
  have 1: "CHR ''1'' \<in> set ''select\<newline>1\<newline>2\<newline>3'' \<and> CHR ''2'' \<in> set ''select\<newline>1\<newline>2\<newline>3''
      \<and> CHR ''3'' \<in> set ''select\<newline>1\<newline>2\<newline>3''
      \<and> sublist ''select'' (py_lower ''select\<newline>1\<newline>2\<newline>3'')"
    by code_simp
  have 2: "CHR ''3'' \<notin> set ''select\<newline>1\<newline>2''" by simp
  have 3: "py_lower ''SELECT'' = ''select'' \<and> list_all py_isspace '' ''" by code_simp
  show ?thesis
    using menu_detection [of "''select\<newline>1\<newline>2\<newline>3''" "''SELECT''" "'' ''" "[]" "'' one''"
        "[]" "'' a''" "[]" "'' b''" "[]" "'' c''"]
      menu_detection [of "''select\<newline>1\<newline>2''" "''SELECT''" "'' ''" "[]" "'' one''"
        "[]" "'' a''" "[]" "'' b''" "[]" "'' c''"]
      1 2 3
    by simp
qed

theorem menu_detection_counterexample:
  "py_split (CHR 0x0A) ''select\<newline>1\<newline>2\<newline>3'' = [''select'', ''1'', ''2'', ''3'']
   \<and> \<not> mon_check_for_options_menu ''select\<newline>1\<newline>2\<newline>3''"
  by code_simp

subsection \<open>Matching under \<open>re.IGNORECASE\<close> does not depend on the casing of the text\<close>

lemma py_isspace_uncased: "py_isspace c \<Longrightarrow> uncased c"
  by (auto simp: py_isspace_def uncased_def py_is_upper_def)

lemma lit_match_same_lower:
  "ignorecase fl \<Longrightarrow> py_lower_char c' = py_lower_char c \<Longrightarrow> lit_match fl x c' = lit_match fl x c"
  by (simp add: lit_match_def)

lemma same_lower_uncased:
  assumes "uncased x" "py_lower_char c' = py_lower_char c"
  shows "c' = x \<longleftrightarrow> c = x"
proof
  assume "c' = x"
  with assms(2) have "py_lower_char c = py_lower_char x" by simp
  with assms(1) show "c = x" by (rule py_lower_char_uncased)
next
  assume "c = x"
  with assms(2) have "py_lower_char c' = py_lower_char x" by simp
  with assms(1) show "c' = x" by (rule py_lower_char_uncased)
qed

lemma dot_match_same_lower:
  assumes "py_lower_char c' = py_lower_char c"
  shows "dot_match fl c' = dot_match fl c"
  unfolding dot_match_def same_lower_uncased [OF uncased_digits(7) assms] ..

lemma py_isspace_same_lower:
  assumes "py_lower_char c' = py_lower_char c"
  shows "py_isspace c' = py_isspace c"
proof
  assume sp: "py_isspace c'"
  then have "uncased c'" by (rule py_isspace_uncased)
  from same_lower_uncased [OF this assms] have "c = c'" by simp
  with sp show "py_isspace c" by simp
next
  assume sp: "py_isspace c"
  then have "uncased c" by (rule py_isspace_uncased)
  from same_lower_uncased [OF this assms] have "c' = c" by simp
  with sp show "py_isspace c'" by simp
qed

lemma cls_match_same_lower:
  assumes "ignorecase fl" "py_lower_char c' = py_lower_char c"
  shows "cls_match fl items c' = cls_match fl items c"
proof -
  have "citem_match fl i c' = citem_match fl i c" for i
    using lit_match_same_lower [OF assms] py_isspace_same_lower [OF assms(2)]
    by (cases i) simp_all
  then show ?thesis by (simp add: cls_match_def)
qed

lemma py_lower_singleD:
  "py_lower u' = py_lower [c] \<Longrightarrow> \<exists>c'. u' = [c'] \<and> py_lower_char c' = py_lower_char c"
  by (cases u') (simp_all add: py_lower_def)

lemma lang_same_lower:
  assumes "ignorecase fl"
  shows "u \<in> lang fl r \<Longrightarrow> py_lower u' = py_lower u \<Longrightarrow> u' \<in> lang fl r"
proof (induction r arbitrary: u u')
  case RZero
  then show ?case by simp
next
  case REps
  then show ?case by (simp add: py_lower_def)
next
  case (RLit x)
  then obtain c where c: "u = [c]" "lit_match fl x c" by auto
  with RLit(2) obtain c' where c': "u' = [c']" "py_lower_char c' = py_lower_char c"
    by (blast dest: py_lower_singleD)
  show ?case using c c'(1) lit_match_same_lower [OF assms c'(2), of x] by simp
next
  case RDot
  then obtain c where c: "u = [c]" "dot_match fl c" by auto
  with RDot(2) obtain c' where c': "u' = [c']" "py_lower_char c' = py_lower_char c"
    by (blast dest: py_lower_singleD)
  show ?case using c c'(1) dot_match_same_lower [OF c'(2), of fl] by simp
next
  case (RCls items)
  then obtain c where c: "u = [c]" "cls_match fl items c" by auto
  with RCls(2) obtain c' where c': "u' = [c']" "py_lower_char c' = py_lower_char c"
    by (blast dest: py_lower_singleD)
  show ?case using c c'(1) cls_match_same_lower [OF assms c'(2), of items] by simp
next
  case (RAlt r s)
  then show ?case by auto
next
  case (RSeq r s)
  from RSeq.prems(1) obtain u1 u2 where u: "u = u1 @ u2" "u1 \<in> lang fl r" "u2 \<in> lang fl s"
    by auto
  then have "py_lower u' = py_lower u1 @ py_lower u2"
    using RSeq.prems(2) by (simp add: py_lower_def)
  from py_lower_eq_appendD [OF this]
  obtain v1 v2 where v: "u' = v1 @ v2" "py_lower v1 = py_lower u1" "py_lower v2 = py_lower u2"
    by (elim exE conjE)
  have "v1 \<in> lang fl r" "v2 \<in> lang fl s"
    using RSeq.IH u(2,3) v(2,3) by blast+
  with v(1) show ?case by auto
next
  case (ROpt r)
  show ?case
  proof (cases "u = []")
    case True
    with ROpt.prems(2) show ?thesis by (simp add: py_lower_def)
  next
    case False
    with ROpt show ?thesis by auto
  qed
next
  case (RStar r)
  from RStar.prems(1) have "u \<in> star_lang (lang fl r)" by simp
  then have "u' \<in> star_lang (lang fl r)" using RStar.prems(2)
  proof (induction arbitrary: u' rule: star_lang.induct)
    case star_nil
    then show ?case by (simp add: py_lower_def star_lang.star_nil)
  next
    case (star_app u1 u2)
    have "py_lower u' = py_lower u1 @ py_lower u2"
      using star_app.prems by (simp add: py_lower_def)
    from py_lower_eq_appendD [OF this]
    obtain v1 v2 where v: "u' = v1 @ v2" "py_lower v1 = py_lower u1" "py_lower v2 = py_lower u2"
      by (elim exE conjE)
    have "v1 \<in> lang fl r" using RStar.IH star_app.hyps(1) v(2) by blast
    moreover have "v2 \<in> star_lang (lang fl r)" using star_app.IH v(3) by blast
    ultimately show ?case unfolding v(1) by (rule star_lang.star_app)
  qed
  then show ?case by simp
qed

lemma re_search_same_lower:
  assumes "ignorecase fl" "py_lower t' = py_lower t" "re_search fl r t"
  shows "re_search fl r t'"
proof -
  from assms(3) obtain a u b where t: "t = a @ u @ b" "u \<in> lang fl r"
    unfolding re_search_lang by blast
  have "py_lower t' = py_lower a @ py_lower (u @ b)"
    using assms(2) t(1) by (simp add: py_lower_def)
  from py_lower_eq_appendD [OF this]
  obtain a' v where 1: "t' = a' @ v" "py_lower v = py_lower (u @ b)" by (elim exE conjE)
  have "py_lower v = py_lower u @ py_lower b" using 1(2) by (simp add: py_lower_def)
  from py_lower_eq_appendD [OF this]
  obtain u' b' where 2: "v = u' @ b'" "py_lower u' = py_lower u" by (elim exE conjE)
  have "u' \<in> lang fl r" using assms(1) t(2) 2(2) by (rule lang_same_lower)
  then show ?thesis unfolding re_search_lang 1(1) 2(1) by blast
qed

lemma ocr_claude4_same_lower:
  assumes "py_lower t' = py_lower t"
  shows "ocr_check_for_claude4 t' = ocr_check_for_claude4 t"
proof -
  have ic: "ignorecase IGNORECASE" by (simp add: IGNORECASE_def)
  have "re_search IGNORECASE p t' = re_search IGNORECASE p t" for p
    using re_search_same_lower [OF ic assms] re_search_same_lower [OF ic assms [symmetric]]
    by blast
  then show ?thesis by (simp add: ocr_check_for_claude4_def)
qed

lemma mon_claude4_same_lower:
  "py_lower t' = py_lower t \<Longrightarrow> mon_mentions_claude4 t' = mon_mentions_claude4 t"
  by (simp add: mon_mentions_claude4_def)

text \<open>
  C6. In both scripts the trigger detector accepts every text that contains the model
  name in the hyphenated form claude-4 or in the spaced form claude 4, whatever the
  casing of its letters (the accessibility script looks in the window content and in
  the window title); and the verdict of either detector does not change when the casing
  of the text changes.
\<close>

theorem trigger_matching_case_insensitive:
  "((py_lower w = ''claude-4'' \<or> py_lower w = ''claude 4'') \<and> sublist w t \<longrightarrow>
      ocr_check_for_claude4 t \<and> mon_check_for_claude4 t title
      \<and> mon_check_for_claude4 content t)
   \<and> (py_lower t' = py_lower t \<longrightarrow>
        ocr_check_for_claude4 t' = ocr_check_for_claude4 t
        \<and> mon_check_for_claude4 t' title = mon_check_for_claude4 t title
        \<and> mon_check_for_claude4 content t' = mon_check_for_claude4 content t)"
  using ocr_claude4_any_casing [of w t] mon_claude4_any_casing [of w t]
    ocr_claude4_same_lower [of t' t] mon_claude4_same_lower [of t' t]
  by (auto simp: mon_check_for_claude4_def)

theorem trigger_matching_case_insensitive_witness:
  "ocr_check_for_claude4 ''model: ClAuDe-4 (new)''
   \<and> mon_check_for_claude4 ''model: ClAuDe-4 (new)'' ''Cursor''
   \<and> mon_check_for_claude4 ''~'' ''model: ClAuDe-4 (new)''
   \<and> ocr_check_for_claude4 ''CLAUDE 4''
   \<and> ocr_check_for_claude4 ''Model: CLAUDE-4 (New)'' = ocr_check_for_claude4 ''model: ClAuDe-4 (new)''"
proof -
  have 1: "py_lower ''ClAuDe-4'' = ''claude-4'' \<and> sublist ''ClAuDe-4'' ''model: ClAuDe-4 (new)''"
    by code_simp
  have 2: "py_lower ''CLAUDE 4'' = ''claude 4'' \<and> sublist ''CLAUDE 4'' ''CLAUDE 4''"
    by code_simp
  have 3: "py_lower ''Model: CLAUDE-4 (New)'' = py_lower ''model: ClAuDe-4 (new)''"
    by code_simp
  show ?thesis
    using trigger_matching_case_insensitive [of "''ClAuDe-4''" "''model: ClAuDe-4 (new)''"
        "''Cursor''" "''~''" "''Model: CLAUDE-4 (New)''"]
      trigger_matching_case_insensitive [of "''CLAUDE 4''" "''CLAUDE 4''"
        "''Cursor''" "''~''" "''CLAUDE 4''"]
      1 2 3
    by blast
qed

text \<open>
  C8 (as amended). The two scripts do not use the same matchers. Every text that the
  accessibility script's matchers accept is accepted by the OCR script's matchers too
  (for the trigger: the window content or the window title), but the OCR script's
  matchers accept more: a trigger such as opus 4, and a menu such as 1 2 3 on one line.
\<close>

theorem ocr_matchers_accept_more:
  "(mon_check_for_claude4 content title \<longrightarrow>
      ocr_check_for_claude4 content \<or> ocr_check_for_claude4 title)
   \<and> (mon_check_for_options_menu t \<longrightarrow> ocr_check_for_options_menu t)"
  using mon_mentions_imp_ocr [of content] mon_mentions_imp_ocr [of title] mon_menu_imp_ocr [of t]
  by (auto simp: mon_check_for_claude4_def split: if_splits)

theorem ocr_matchers_accept_more_witness:
  "mon_check_for_claude4 ''uses Claude 4'' ''Cursor''
   \<and> (ocr_check_for_claude4 ''uses Claude 4'' \<or> ocr_check_for_claude4 ''Cursor'')
   \<and> mon_check_for_options_menu ''[1] yes [2] always [3] no''
   \<and> ocr_check_for_options_menu ''[1] yes [2] always [3] no''"
proof -
  have 1: "mon_check_for_claude4 ''uses Claude 4'' ''Cursor''" by code_simp
  have 2: "mon_check_for_options_menu ''[1] yes [2] always [3] no''" by code_simp
  show ?thesis
    using ocr_matchers_accept_more [of "''uses Claude 4''" "''Cursor''" "''[1] yes [2] always [3] no''"]
      1 2
    by blast
qed

theorem same_matching_counterexample:
  "ocr_check_for_claude4 ''opus 4'' \<and> \<not> mon_check_for_claude4 ''opus 4'' ''opus 4''
   \<and> ocr_check_for_options_menu ''1 2 3'' \<and> \<not> mon_check_for_options_menu ''1 2 3''"
  by code_simp

section \<open>The operating system as the scripts see it\<close>

text \<open>
  Every script talks to the system through \<open>run_osascript\<close>: one external call per
  query or action. The answer of the system is an input of the model: \<open>Denied\<close> is a
  failed call whose error text mentions assistive access, \<open>Failed\<close> any other failed
  call, \<open>Out s\<close> a call that succeeded with the stripped output \<open>s\<close>. A function of
  the model returns the list of events it caused (the calls it made, the dialogs it
  opened) and either a result or the exception that ended it. Printing, sleeping and the
  temporary files are left out. A \<open>Screencapture\<close> event carries the index of the
  window whose bounds are captured, and then the bounds.
\<close>

datatype error = SystemExit | ValueError | NameError | CalledProcessError | OverflowError

datatype osa = Denied | Failed | Out string

datatype os_cmd =
    ProcessRunning
  | CountWindows
  | GetName int
  | GetPosition int
  | GetSize int
  | GetMinimized int
  | EntireContents int
  | FocusClick int
  | Keystroke string
  | KeyCode nat
  | SetMinimized int bool
  | ClickButton1 int
  | SetPosition int int int
  | SetSize int int int

datatype event =
    Script os_cmd
  | Screencapture int int int int int
  | OcrScript
  | AskYesNo
  | ShowError
  | ShowWarning

type_synonym 'a io = "event list \<times> (error + 'a)"

definition io_return :: "'a \<Rightarrow> 'a io" where
  "io_return x = ([], Inr x)"

definition io_raise :: "error \<Rightarrow> 'a io" where
  "io_raise e = ([], Inl e)"

definition io_bind :: "'a io \<Rightarrow> ('a \<Rightarrow> 'b io) \<Rightarrow> 'b io" where
  "io_bind m f =
     (case m of
        (evs, Inl e) \<Rightarrow> (evs, Inl e)
      | (evs, Inr x) \<Rightarrow> (case f x of (evs', r) \<Rightarrow> (evs @ evs', r)))"

text \<open>\<open>run_osascript\<close> of the three command-line scripts: \<open>sys.exit(1)\<close> when access
  is denied, \<open>None\<close> on any other failure.\<close>

definition run_osascript :: "os_cmd \<Rightarrow> osa \<Rightarrow> string option io" where
  "run_osascript cmd answer =
     ([Script cmd],
      case answer of
        Denied \<Rightarrow> Inl SystemExit
      | Failed \<Rightarrow> Inr None
      | Out s \<Rightarrow> Inr (Some s))"

text \<open>Python's \<open>r or d\<close> for a result that is \<open>None\<close> or a string.\<close>

definition or_else :: "string option \<Rightarrow> string \<Rightarrow> string" where
  "or_else r d = (case r of None \<Rightarrow> d | Some s \<Rightarrow> if s = [] then d else s)"

text \<open>\<open>int(s)\<close> as a step that may raise.\<close>

definition py_int_io :: "string \<Rightarrow> int io" where
  "py_int_io s = (case py_int s of None \<Rightarrow> io_raise ValueError | Some i \<Rightarrow> io_return i)"

text \<open>The calls the autoresponder makes on a window: the indices it focuses; the
  windows a run captures; the windows a run closes.\<close>

fun selected :: "event list \<Rightarrow> int list" where
  "selected [] = []"
| "selected (Script (FocusClick i) # evs) = i # selected evs"
| "selected (ev # evs) = selected evs"

fun captured :: "event list \<Rightarrow> int list" where
  "captured [] = []"
| "captured (Screencapture i x y w h # evs) = i # captured evs"
| "captured (ev # evs) = captured evs"

fun closed_windows :: "event list \<Rightarrow> int list" where
  "closed_windows [] = []"
| "closed_windows (Script (ClickButton1 i) # evs) = i # closed_windows evs"
| "closed_windows (ev # evs) = closed_windows evs"

section \<open>The accessibility monitor: \<open>cursor-terminal-monitor.py\<close>\<close>

text \<open>
  The answers of the system during one poll cycle, one field per place that asks: the
  enumeration, the two queries of \<open>check_for_claude4\<close>, the query of
  \<open>check_for_options_menu\<close> and the three calls of \<open>select_option_2\<close>, each for the
  window of a given index.
\<close>

record mon_env =
  m_running :: osa
  m_count :: osa
  m_name :: "int \<Rightarrow> osa"
  m_contents_claude4 :: "int \<Rightarrow> osa"
  m_name_claude4 :: "int \<Rightarrow> osa"
  m_contents_menu :: "int \<Rightarrow> osa"
  m_focus :: "int \<Rightarrow> osa"
  m_keystroke :: "int \<Rightarrow> osa"
  m_keycode :: "int \<Rightarrow> osa"

record mon_window =
  mw_index :: int
  mw_title :: string

record mon_state =
  mon_claude4_windows :: "int set"
  mon_processed_menus :: "string set"

fun mon_window_loop :: "mon_env \<Rightarrow> int list \<Rightarrow> mon_window list io" where
  "mon_window_loop env [] = io_return []"
| "mon_window_loop env (i # rest) =
     io_bind (run_osascript (GetName i) (m_name env i)) (\<lambda>r.
     io_bind (mon_window_loop env rest) (\<lambda>windows.
     io_return (\<lparr>mw_index = i, mw_title = or_else r ''Unknown''\<rparr> # windows)))"

definition mon_get_cursor_windows :: "mon_env \<Rightarrow> mon_window list io" where
  "mon_get_cursor_windows env =
     io_bind (run_osascript ProcessRunning (m_running env)) (\<lambda>r.
       if r \<noteq> Some ''true'' then io_return []
       else
         io_bind (run_osascript CountWindows (m_count env)) (\<lambda>count_result.
           if or_else count_result [] = [] \<or> \<not> py_isdigit (or_else count_result [])
           then io_return []
           else
             io_bind (py_int_io (or_else count_result [])) (\<lambda>window_count.
             mon_window_loop env [1..window_count])))"

definition mon_get_window_ui_elements :: "int \<Rightarrow> osa \<Rightarrow> string io" where
  "mon_get_window_ui_elements window_index answer =
     io_bind (run_osascript (EntireContents window_index) answer) (\<lambda>result.
     io_return (or_else result []))"

definition mon_check_for_claude4_io :: "mon_env \<Rightarrow> int \<Rightarrow> bool io" where
  "mon_check_for_claude4_io env window_index =
     io_bind (mon_get_window_ui_elements window_index (m_contents_claude4 env window_index))
       (\<lambda>content.
         if mon_mentions_claude4 content then io_return True
         else
           io_bind (run_osascript (GetName window_index) (m_name_claude4 env window_index))
             (\<lambda>r. io_return (mon_mentions_claude4 (or_else r []))))"

definition mon_check_for_options_menu_io :: "mon_env \<Rightarrow> int \<Rightarrow> bool io" where
  "mon_check_for_options_menu_io env window_index =
     io_bind (mon_get_window_ui_elements window_index (m_contents_menu env window_index))
       (\<lambda>content. io_return (mon_check_for_options_menu content))"

definition select_option_2 :: "mon_env \<Rightarrow> int \<Rightarrow> unit io" where
  "select_option_2 env window_index =
     io_bind (run_osascript (FocusClick window_index) (m_focus env window_index)) (\<lambda>_.
     io_bind (run_osascript (Keystroke ''2'') (m_keystroke env window_index)) (\<lambda>_.
     io_bind (run_osascript (KeyCode 36) (m_keycode env window_index)) (\<lambda>_.
     io_return ())))"

definition mon_window_key :: "int \<Rightarrow> string \<Rightarrow> string" where
  "mon_window_key index title = py_str index @ ''_'' @ title"

definition mon_window_step :: "mon_env \<Rightarrow> mon_state \<Rightarrow> mon_window \<Rightarrow> mon_state io" where
  "mon_window_step env s window =
     (let index = mw_index window; title = mw_title window in
      io_bind (mon_check_for_claude4_io env index) (\<lambda>has_claude4.
        let s1 = (if has_claude4 \<and> index \<notin> mon_claude4_windows s
                  then s\<lparr>mon_claude4_windows := insert index (mon_claude4_windows s)\<rparr>
                  else s)
        in if has_claude4 \<or> index \<in> mon_claude4_windows s1 then
             (let window_key = mon_window_key index title in
              io_bind (mon_check_for_options_menu_io env index) (\<lambda>menu.
                if menu \<and> window_key \<notin> mon_processed_menus s1 then
                  io_bind (select_option_2 env index) (\<lambda>_.
                  io_return
                    (s1\<lparr>mon_processed_menus := insert window_key (mon_processed_menus s1)\<rparr>))
                else io_return s1))
           else io_return s1))"

fun mon_for_windows :: "mon_env \<Rightarrow> mon_state \<Rightarrow> mon_window list \<Rightarrow> mon_state io" where
  "mon_for_windows env s [] = io_return s"
| "mon_for_windows env s (window # rest) =
     io_bind (mon_window_step env s window) (\<lambda>s'. mon_for_windows env s' rest)"

definition current_window_keys :: "mon_window list \<Rightarrow> string set" where
  "current_window_keys windows = set (map (\<lambda>w. mon_window_key (mw_index w) (mw_title w)) windows)"

definition mon_cycle :: "mon_env \<Rightarrow> mon_state \<Rightarrow> mon_state io" where
  "mon_cycle env s =
     io_bind (mon_get_cursor_windows env) (\<lambda>windows.
     io_bind (mon_for_windows env s windows) (\<lambda>s'.
     io_return
       (s'\<lparr>mon_processed_menus := mon_processed_menus s' \<inter> current_window_keys windows\<rparr>)))"

text \<open>A run: the poll cycles that happen before the keyboard interrupt, each with the
  answers the system gives in it.\<close>

fun mon_cycles :: "mon_state \<Rightarrow> mon_env list \<Rightarrow> mon_state io" where
  "mon_cycles s [] = io_return s"
| "mon_cycles s (env # envs) = io_bind (mon_cycle env s) (\<lambda>s'. mon_cycles s' envs)"

definition monitor_terminals :: "mon_env list \<Rightarrow> mon_state io" where
  "monitor_terminals envs =
     mon_cycles \<lparr>mon_claude4_windows = {}, mon_processed_menus = {}\<rparr> envs"

section \<open>The OCR monitor: \<open>cursor-terminal-ocr.py\<close>\<close>

text \<open>
  The answers of the system during one poll cycle of the OCR script. \<open>o_capture_ok\<close>
  says whether \<open>screencapture\<close> ended with status zero for the window; otherwise
  \<open>subprocess.run(..., check=True)\<close> raises \<open>CalledProcessError\<close>. \<open>o_text\<close> is
  what the recognition script would print for the window's picture (the empty string
  when it fails).
\<close>

record ocr_env =
  o_running :: osa
  o_count :: osa
  o_name :: "int \<Rightarrow> osa"
  o_position :: "int \<Rightarrow> osa"
  o_size :: "int \<Rightarrow> osa"
  o_minimized :: "int \<Rightarrow> osa"
  o_capture_ok :: "int \<Rightarrow> bool"
  o_text :: "int \<Rightarrow> string"
  o_focus :: "int \<Rightarrow> osa"
  o_keystroke :: "int \<Rightarrow> osa"
  o_keycode :: "int \<Rightarrow> osa"

text \<open>A window as the dictionary \<open>window_info\<close>: the keys \<open>x\<close>, \<open>y\<close>, \<open>width\<close> and
  \<open>height\<close> are absent when their query gave nothing.\<close>

record window_info =
  w_index :: int
  w_title :: string
  w_x :: "int option"
  w_y :: "int option"
  w_width :: "int option"
  w_height :: "int option"
  w_minimized :: bool

text \<open>\<open>s.split(", ")\<close>.\<close>

fun split_comma_space :: "string \<Rightarrow> string list" where
  "split_comma_space [] = [[]]"
| "split_comma_space [c] = [[c]]"
| "split_comma_space (c # d # cs) =
     (if c = CHR '','' \<and> d = CHR '' '' then [] # split_comma_space cs
      else (let ls = split_comma_space (d # cs) in (c # hd ls) # tl ls))"

text \<open>\<open>a, b = map(int, s.split(", "))\<close>: a \<open>ValueError\<close> unless there are exactly two
  parts and both are integers.\<close>

definition int_pair :: "string \<Rightarrow> (int \<times> int) io" where
  "int_pair s =
     (case map py_int (split_comma_space s) of
        [Some a, Some b] \<Rightarrow> io_return (a, b)
      | _ \<Rightarrow> io_raise ValueError)"

definition opt_int_pair :: "string option \<Rightarrow> (int option \<times> int option) io" where
  "opt_int_pair r =
     (if or_else r [] = [] then io_return (None, None)
      else io_bind (int_pair (or_else r [])) (\<lambda>(a, b). io_return (Some a, Some b)))"

fun ocr_window_loop :: "ocr_env \<Rightarrow> int list \<Rightarrow> window_info list io" where
  "ocr_window_loop env [] = io_return []"
| "ocr_window_loop env (i # rest) =
     io_bind (run_osascript (GetName i) (o_name env i)) (\<lambda>name.
     io_bind (run_osascript (GetPosition i) (o_position env i)) (\<lambda>pos.
     io_bind (opt_int_pair pos) (\<lambda>(x, y).
     io_bind (run_osascript (GetSize i) (o_size env i)) (\<lambda>size.
     io_bind (opt_int_pair size) (\<lambda>(width, height).
     io_bind (run_osascript (GetMinimized i) (o_minimized env i)) (\<lambda>m.
     io_bind (ocr_window_loop env rest) (\<lambda>windows.
       let window_info =
             \<lparr>w_index = i, w_title = or_else name ''Unknown'', w_x = x, w_y = y,
              w_width = width, w_height = height, w_minimized = (m = Some ''true'')\<rparr>
       in io_return (if \<not> w_minimized window_info then window_info # windows
                     else windows))))))))"

definition ocr_get_cursor_windows :: "ocr_env \<Rightarrow> window_info list io" where
  "ocr_get_cursor_windows env =
     io_bind (run_osascript ProcessRunning (o_running env)) (\<lambda>r.
       if r \<noteq> Some ''true'' then io_return []
       else
         io_bind (run_osascript CountWindows (o_count env)) (\<lambda>count_result.
           if or_else count_result [] = [] \<or> \<not> py_isdigit (or_else count_result [])
           then io_return []
           else
             io_bind (py_int_io (or_else count_result [])) (\<lambda>window_count.
             ocr_window_loop env [1..window_count])))"

text \<open>\<open>window.get(key, default)\<close>.\<close>

definition get_or :: "'a option \<Rightarrow> 'a \<Rightarrow> 'a" where
  "get_or v d = (case v of None \<Rightarrow> d | Some a \<Rightarrow> a)"

definition capture_window_screenshot :: "ocr_env \<Rightarrow> window_info \<Rightarrow> unit io" where
  "capture_window_screenshot env window =
     ([Screencapture (w_index window) (get_or (w_x window) 0) (get_or (w_y window) 0)
         (get_or (w_width window) 800) (get_or (w_height window) 600)],
      if o_capture_ok env (w_index window) then Inr () else Inl CalledProcessError)"

text \<open>
  \<open>ocr_screenshot\<close> first builds its recognition script as an f-string. The text of
  that script holds \<open>performRequests:{request}\<close>, which Python reads as a replacement
  field, and the script knows no name \<open>request\<close>: building the string raises
  \<open>NameError\<close>. The rest of the function, which would run the script and return what
  it prints, is never reached.
\<close>

definition ocr_screenshot :: "ocr_env \<Rightarrow> int \<Rightarrow> string io" where
  "ocr_screenshot env window_index =
     io_bind (io_raise NameError) (\<lambda>script :: string.
     ([OcrScript], Inr (o_text env window_index)))"

definition focus_and_select_option_2 :: "ocr_env \<Rightarrow> int \<Rightarrow> unit io" where
  "focus_and_select_option_2 env window_index =
     io_bind (run_osascript (FocusClick window_index) (o_focus env window_index)) (\<lambda>_.
     io_bind (run_osascript (Keystroke ''2'') (o_keystroke env window_index)) (\<lambda>_.
     io_bind (run_osascript (KeyCode 36) (o_keycode env window_index)) (\<lambda>_.
     io_return ())))"

record ocr_state =
  ocr_claude4_windows :: "int set"
  ocr_processed_selections :: "string set"

definition ocr_window_key :: "int \<Rightarrow> string \<Rightarrow> string \<Rightarrow> string" where
  "ocr_window_key index title text =
     py_str index @ ''_'' @ title @ ''_'' @ str_nat (length text)"

text \<open>\<open>try: body except Exception: handler\<close>. \<open>SystemExit\<close> is not an \<open>Exception\<close>
  and passes through.\<close>

definition try_except_Exception :: "'a io \<Rightarrow> 'a io \<Rightarrow> 'a io" where
  "try_except_Exception body handler =
     (case body of
        (evs, Inl e) \<Rightarrow>
          if e = SystemExit then (evs, Inl e)
          else (case handler of (evs', r) \<Rightarrow> (evs @ evs', r))
      | (evs, Inr x) \<Rightarrow> (evs, Inr x))"

text \<open>The body of the loop over the windows. The handler is \<open>pass\<close>: the window is
  dropped for this cycle. Nothing in the \<open>try\<close> changes the two sets before a call that
  can raise an \<open>Exception\<close>, so the handler goes on with the state the step began with.\<close>

definition ocr_window_step :: "ocr_env \<Rightarrow> ocr_state \<Rightarrow> window_info \<Rightarrow> ocr_state io" where
  "ocr_window_step env s window =
     (let index = w_index window; title = w_title window in
      if get_or (w_width window) 0 < 200 \<or> get_or (w_height window) 0 < 100
      then io_return s
      else
        try_except_Exception
          (io_bind (capture_window_screenshot env window) (\<lambda>_.
           io_bind (ocr_screenshot env index) (\<lambda>text.
             if ocr_check_for_claude4 text then
               (let s1 = (if index \<notin> ocr_claude4_windows s
                          then s\<lparr>ocr_claude4_windows := insert index (ocr_claude4_windows s)\<rparr>
                          else s);
                    window_key = ocr_window_key index title text
                in if ocr_check_for_options_menu text
                      \<and> window_key \<notin> ocr_processed_selections s1
                   then
                     io_bind (focus_and_select_option_2 env index) (\<lambda>_.
                     io_return
                       (s1\<lparr>ocr_processed_selections :=
                             insert window_key (ocr_processed_selections s1)\<rparr>))
                   else io_return s1)
             else io_return s)))
          (io_return s))"

fun ocr_for_windows :: "ocr_env \<Rightarrow> ocr_state \<Rightarrow> window_info list \<Rightarrow> ocr_state io" where
  "ocr_for_windows env s [] = io_return s"
| "ocr_for_windows env s (window # rest) =
     io_bind (ocr_window_step env s window) (\<lambda>s'. ocr_for_windows env s' rest)"

definition ocr_cycle :: "ocr_env \<Rightarrow> ocr_state \<Rightarrow> ocr_state io" where
  "ocr_cycle env s =
     io_bind (ocr_get_cursor_windows env) (\<lambda>windows. ocr_for_windows env s windows)"

fun ocr_cycles :: "ocr_state \<Rightarrow> ocr_env list \<Rightarrow> ocr_state io" where
  "ocr_cycles s [] = io_return s"
| "ocr_cycles s (env # envs) = io_bind (ocr_cycle env s) (\<lambda>s'. ocr_cycles s' envs)"

definition monitor_with_ocr :: "ocr_env list \<Rightarrow> ocr_state io" where
  "monitor_with_ocr envs =
     ocr_cycles \<lparr>ocr_claude4_windows = {}, ocr_processed_selections = {}\<rparr> envs"

section \<open>Facts about the two monitor loops\<close>

lemma io_bind_return: "io_bind (io_return x) f = f x"
  by (simp add: io_bind_def io_return_def split: prod.splits)

lemma io_bind_Inr_iff:
  "io_bind m f = (evs, Inr y) \<longleftrightarrow>
     (\<exists>e1 x e2. m = (e1, Inr x) \<and> f x = (e2, Inr y) \<and> evs = e1 @ e2)"
  by (cases m) (auto simp: io_bind_def split: sum.splits prod.splits)

lemma io_return_Inr_iff: "io_return x = (evs, Inr y) \<longleftrightarrow> evs = [] \<and> y = x"
  by (auto simp: io_return_def)

lemma fst_io_bind:
  "fst (io_bind m f) = fst m @ (case snd m of Inl e \<Rightarrow> [] | Inr x \<Rightarrow> fst (f x))"
  by (cases m) (auto simp: io_bind_def split: sum.splits prod.splits)

lemma fst_io_return: "fst (io_return x) = []"
  by (simp add: io_return_def)

lemma run_osascript_Inr_iff:
  "run_osascript cmd answer = (evs, Inr r) \<longleftrightarrow>
     evs = [Script cmd] \<and> answer \<noteq> Denied
     \<and> r = (case answer of Out s \<Rightarrow> Some s | _ \<Rightarrow> None)"
  by (cases answer) (auto simp: run_osascript_def)

lemma fst_run_osascript: "fst (run_osascript cmd answer) = [Script cmd]"
  by (simp add: run_osascript_def)

lemma py_int_io_Inr_iff: "py_int_io c = (evs, Inr n) \<longleftrightarrow> evs = [] \<and> py_int c = Some n"
  by (auto simp: py_int_io_def io_raise_def io_return_def split: option.splits)

lemma fst_py_int_io: "fst (py_int_io c) = []"
  by (simp add: py_int_io_def io_raise_def io_return_def split: option.splits)

lemma selected_append: "selected (xs @ ys) = selected xs @ selected ys"
  by (induction xs rule: selected.induct) simp_all

lemma captured_append: "captured (xs @ ys) = captured xs @ captured ys"
  by (induction xs rule: captured.induct) simp_all

lemma closed_windows_append: "closed_windows (xs @ ys) = closed_windows xs @ closed_windows ys"
  by (induction xs rule: closed_windows.induct) simp_all

subsection \<open>The enumeration of the OCR script\<close>

lemma ocr_window_loop_sound:
  "ocr_window_loop env idxs = (evs, Inr windows) \<Longrightarrow> w \<in> set windows \<Longrightarrow>
     w_index w \<in> set idxs \<and> \<not> w_minimized w \<and> o_minimized env (w_index w) \<noteq> Out ''true''"
proof (induction idxs arbitrary: evs windows)
  case Nil
  then show ?case by (simp add: io_return_Inr_iff)
next
  case (Cons i rest)
  from Cons.prems(1) obtain e' ws' name x y width height m where
    rest: "ocr_window_loop env rest = (e', Inr ws')"
    and m: "run_osascript (GetMinimized i) (o_minimized env i) = ([Script (GetMinimized i)], Inr m)"
    and windows: "windows =
       (let window_info = \<lparr>w_index = i, w_title = or_else name ''Unknown'', w_x = x, w_y = y,
              w_width = width, w_height = height, w_minimized = (m = Some ''true'')\<rparr>
        in if \<not> w_minimized window_info then window_info # ws' else ws')"
    by (auto simp: io_bind_Inr_iff io_return_Inr_iff run_osascript_Inr_iff Let_def
        split: prod.splits)
  show ?case
  proof (cases "w \<in> set ws'")
    case True
    then show ?thesis using Cons.IH [OF rest] by simp
  next
    case False
    with Cons.prems(2) windows
    have w: "m \<noteq> Some ''true''" "w_index w = i" "\<not> w_minimized w"
      by (auto simp: Let_def split: if_splits)
    moreover have "o_minimized env i \<noteq> Out ''true''"
      using m w(1) by (auto simp: run_osascript_Inr_iff)
    ultimately show ?thesis by simp
  qed
qed

lemma ocr_window_loop_complete:
  "ocr_window_loop env idxs = (evs, Inr windows) \<Longrightarrow> i \<in> set idxs \<Longrightarrow>
     o_minimized env i \<noteq> Out ''true'' \<Longrightarrow> i \<in> w_index ` set windows"
proof (induction idxs arbitrary: evs windows)
  case Nil
  then show ?case by simp
next
  case (Cons j rest)
  from Cons.prems(1) obtain e' ws' name x y width height m where
    rest: "ocr_window_loop env rest = (e', Inr ws')"
    and m: "run_osascript (GetMinimized j) (o_minimized env j) = ([Script (GetMinimized j)], Inr m)"
    and windows: "windows =
       (let window_info = \<lparr>w_index = j, w_title = or_else name ''Unknown'', w_x = x, w_y = y,
              w_width = width, w_height = height, w_minimized = (m = Some ''true'')\<rparr>
        in if \<not> w_minimized window_info then window_info # ws' else ws')"
    by (auto simp: io_bind_Inr_iff io_return_Inr_iff run_osascript_Inr_iff Let_def
        split: prod.splits)
  show ?case
  proof (cases "i = j")
    case True
    with m Cons.prems(3) have "m \<noteq> Some ''true''"
      by (cases "o_minimized env j") (auto simp: run_osascript_Inr_iff)
    with windows True show ?thesis by (simp add: Let_def)
  next
    case False
    with Cons.prems(2) have "i \<in> set rest" by simp
    from Cons.IH [OF rest this Cons.prems(3)] windows show ?thesis
      by (auto simp: Let_def)
  qed
qed

lemma ocr_get_cursor_windows_cases:
  assumes "ocr_get_cursor_windows env = (evs, Inr windows)"
  shows "windows = []
    \<or> (\<exists>c n e'. o_running env = Out ''true'' \<and> o_count env = Out c \<and> py_isdigit c
          \<and> py_int c = Some n \<and> ocr_window_loop env [1..n] = (e', Inr windows))"
proof -
  from assms obtain r e2 where r: "o_running env \<noteq> Denied"
    "r = (case o_running env of Out s \<Rightarrow> Some s | _ \<Rightarrow> None)"
    and rest: "(if r \<noteq> Some ''true'' then io_return []
       else io_bind (run_osascript CountWindows (o_count env)) (\<lambda>count_result.
           if or_else count_result [] = [] \<or> \<not> py_isdigit (or_else count_result [])
           then io_return []
           else io_bind (py_int_io (or_else count_result [])) (\<lambda>window_count.
                ocr_window_loop env [1..window_count])))
      = (e2, Inr windows)"
    unfolding ocr_get_cursor_windows_def io_bind_Inr_iff run_osascript_Inr_iff by blast
  show ?thesis
  proof (cases "r = Some ''true''")
    case False
    with rest show ?thesis by (simp add: io_return_Inr_iff)
  next
    case True
    with r have run: "o_running env = Out ''true''" by (cases "o_running env") auto
    from True rest have "io_bind (run_osascript CountWindows (o_count env)) (\<lambda>count_result.
           if or_else count_result [] = [] \<or> \<not> py_isdigit (or_else count_result [])
           then io_return []
           else io_bind (py_int_io (or_else count_result [])) (\<lambda>window_count.
                ocr_window_loop env [1..window_count]))
      = (e2, Inr windows)" by simp
    then obtain cr e3 where cr: "o_count env \<noteq> Denied"
      "cr = (case o_count env of Out s \<Rightarrow> Some s | _ \<Rightarrow> None)"
      and loop: "(if or_else cr [] = [] \<or> \<not> py_isdigit (or_else cr [])
           then io_return []
           else io_bind (py_int_io (or_else cr [])) (\<lambda>window_count.
                ocr_window_loop env [1..window_count])) = (e3, Inr windows)"
      unfolding io_bind_Inr_iff run_osascript_Inr_iff by blast
    show ?thesis
    proof (cases "or_else cr [] = [] \<or> \<not> py_isdigit (or_else cr [])")
      case True
      with loop show ?thesis by (simp add: io_return_Inr_iff)
    next
      case False
      then obtain c where c: "o_count env = Out c" "or_else cr [] = c"
        using cr by (cases "o_count env") (auto simp: or_else_def)
      from False loop c have "io_bind (py_int_io c) (\<lambda>window_count.
                ocr_window_loop env [1..window_count]) = (e3, Inr windows)" by simp
      then obtain n e4 where "py_int c = Some n" "ocr_window_loop env [1..n] = (e4, Inr windows)"
        unfolding io_bind_Inr_iff py_int_io_Inr_iff by blast
      with False c run show ?thesis by auto
    qed
  qed
qed

lemma ocr_get_cursor_windows_not_minimized:
  assumes "ocr_get_cursor_windows env = (evs, Inr windows)" "w \<in> set windows"
  shows "\<not> w_minimized w \<and> o_minimized env (w_index w) \<noteq> Out ''true''"
  using ocr_get_cursor_windows_cases [OF assms(1)] assms(2)
  by (auto dest: ocr_window_loop_sound)

lemma ocr_get_cursor_windows_complete:
  assumes "ocr_get_cursor_windows env = (evs, Inr windows)"
    and "o_running env = Out ''true''" "o_count env = Out c" "py_isdigit c"
    and "py_int c = Some n" "1 \<le> j" "j \<le> n" "o_minimized env j \<noteq> Out ''true''"
  shows "j \<in> w_index ` set windows"
proof -
  have c: "c \<noteq> []" using assms(4) by (auto simp: py_isdigit_def)
  have run: "run_osascript ProcessRunning (o_running env)
      = ([Script ProcessRunning], Inr (Some ''true''))"
    by (simp add: run_osascript_def assms(2))
  have cnt: "run_osascript CountWindows (o_count env) = ([Script CountWindows], Inr (Some c))"
    by (simp add: run_osascript_def assms(3))
  have int: "py_int_io c = ([], Inr n)"
    by (simp add: py_int_io_def assms(5) io_return_def)
  have "ocr_get_cursor_windows env
      = ([Script ProcessRunning, Script CountWindows] @ fst (ocr_window_loop env [1..n]),
         snd (ocr_window_loop env [1..n]))"
    using c assms(4)
    by (simp add: ocr_get_cursor_windows_def run cnt int io_bind_def or_else_def
        split: prod.splits)
  with assms(1) have "ocr_window_loop env [1..n]
      = (fst (ocr_window_loop env [1..n]), Inr windows)"
    by (metis prod.collapse snd_conv)
  from ocr_window_loop_complete [OF this _ assms(8)] assms(6,7) show ?thesis by simp
qed

subsection \<open>The events of the OCR script\<close>

lemma selected_run_osascript:
  "selected (fst (run_osascript cmd answer)) = (case cmd of FocusClick i \<Rightarrow> [i] | _ \<Rightarrow> [])"
  by (cases cmd) (simp_all add: run_osascript_def)

lemma captured_run_osascript: "captured (fst (run_osascript cmd answer)) = []"
  by (simp add: run_osascript_def)

lemma closed_run_osascript:
  "closed_windows (fst (run_osascript cmd answer)) = (case cmd of ClickButton1 i \<Rightarrow> [i] | _ \<Rightarrow> [])"
  by (cases cmd) (simp_all add: run_osascript_def)

lemma set_run_osascript: "set (fst (run_osascript cmd answer)) = {Script cmd}"
  by (simp add: run_osascript_def)

text \<open>Every call of \<open>ocr_screenshot\<close> raises, and no recognition script is run.\<close>

lemma ocr_screenshot_raises: "ocr_screenshot env i = ([], Inl NameError)"
  by (simp add: ocr_screenshot_def io_bind_def io_raise_def)

text \<open>So a step of the loop captures the window, if it is large enough, and nothing
  more: the exception is swallowed and the state is as before.\<close>

lemma ocr_window_step_eq:
  "ocr_window_step env s w =
     (if get_or (w_width w) 0 < 200 \<or> get_or (w_height w) 0 < 100 then []
      else [Screencapture (w_index w) (get_or (w_x w) 0) (get_or (w_y w) 0)
              (get_or (w_width w) 800) (get_or (w_height w) 600)],
      Inr s)"
  by (simp add: ocr_window_step_def Let_def ocr_screenshot_raises capture_window_screenshot_def
      try_except_Exception_def io_bind_def io_return_def)

lemma ocr_for_windows_eq:
  "ocr_for_windows env s ws =
     (concat (map (\<lambda>w. fst (ocr_window_step env s w)) ws), Inr s)"
proof (induction ws)
  case Nil
  show ?case by (simp add: io_return_def)
next
  case (Cons w ws)
  have "ocr_window_step env s w = (fst (ocr_window_step env s w), Inr s)"
    by (simp add: ocr_window_step_eq)
  then have "ocr_for_windows env s (w # ws)
      = io_bind (fst (ocr_window_step env s w), Inr s) (\<lambda>s'. ocr_for_windows env s' ws)"
    by simp
  also have "\<dots> = (fst (ocr_window_step env s w) @ fst (ocr_for_windows env s ws),
      snd (ocr_for_windows env s ws))"
    by (simp add: io_bind_def split: prod.splits)
  finally show ?case using Cons.IH by simp
qed

lemma ocr_for_windows_events:
  "set (fst (ocr_for_windows env s ws)) \<subseteq>
     (\<lambda>w. Screencapture (w_index w) (get_or (w_x w) 0) (get_or (w_y w) 0)
              (get_or (w_width w) 800) (get_or (w_height w) 600)) ` set ws"
  by (auto simp: ocr_for_windows_eq ocr_window_step_eq split: if_splits)

lemma ocr_for_windows_selected: "selected (fst (ocr_for_windows env s ws)) = []"
  by (induction ws) (simp_all add: ocr_for_windows_eq ocr_window_step_eq selected_append)

lemma ocr_for_windows_captured:
  "set (captured (fst (ocr_for_windows env s ws))) \<subseteq> w_index ` set ws"
  by (induction ws) (auto simp: ocr_for_windows_eq ocr_window_step_eq captured_append)

lemma ocr_for_windows_no_ocr: "OcrScript \<notin> set (fst (ocr_for_windows env s ws))"
  using ocr_for_windows_events [of env s ws] by auto

lemma events_opt_int_pair: "fst (opt_int_pair r) = []"
  by (simp add: opt_int_pair_def int_pair_def fst_io_bind fst_io_return io_return_def
      io_raise_def split: sum.splits list.splits option.splits prod.splits)

lemma ocr_window_loop_scripts: "\<forall>ev \<in> set (fst (ocr_window_loop env idxs)). \<exists>cmd. ev = Script cmd
    \<and> (\<forall>i. cmd \<noteq> FocusClick i) \<and> (\<forall>i. cmd \<noteq> ClickButton1 i)"
proof (induction idxs)
  case Nil
  show ?case by (simp add: fst_io_return)
next
  case (Cons i rest)
  then show ?case
    by (auto simp: fst_io_bind set_run_osascript events_opt_int_pair
        fst_io_return Let_def split: sum.splits prod.splits)
qed

lemma ocr_get_cursor_windows_scripts:
  "\<forall>ev \<in> set (fst (ocr_get_cursor_windows env)). \<exists>cmd. ev = Script cmd
    \<and> (\<forall>i. cmd \<noteq> FocusClick i) \<and> (\<forall>i. cmd \<noteq> ClickButton1 i)"
  using ocr_window_loop_scripts [of env]
  by (auto simp: ocr_get_cursor_windows_def fst_io_bind set_run_osascript fst_py_int_io
      fst_io_return split: sum.splits)

lemma scripts_selected:
  "\<forall>ev \<in> set evs. \<exists>cmd. ev = Script cmd \<and> (\<forall>i. cmd \<noteq> FocusClick i) \<and> (\<forall>i. cmd \<noteq> ClickButton1 i)
   \<Longrightarrow> selected evs = [] \<and> captured evs = [] \<and> closed_windows evs = [] \<and> OcrScript \<notin> set evs"
proof (induction evs)
  case Nil
  show ?case by simp
next
  case (Cons ev evs)
  then obtain cmd where "ev = Script cmd" "\<forall>i. cmd \<noteq> FocusClick i" "\<forall>i. cmd \<noteq> ClickButton1 i"
    by auto
  with Cons show ?case by (cases cmd) auto
qed

lemma ocr_cycle_state: "ocr_cycle env s = (evs, Inr s') \<Longrightarrow> s' = s"
  by (auto simp: ocr_cycle_def io_bind_Inr_iff ocr_for_windows_eq)

lemma ocr_cycle_selected: "selected (fst (ocr_cycle env s)) = []"
  using scripts_selected [OF ocr_get_cursor_windows_scripts [of env]]
  by (simp add: ocr_cycle_def fst_io_bind selected_append ocr_for_windows_selected
      split: sum.splits)

lemma ocr_cycle_no_ocr: "OcrScript \<notin> set (fst (ocr_cycle env s))"
  using scripts_selected [OF ocr_get_cursor_windows_scripts [of env]]
  by (simp add: ocr_cycle_def fst_io_bind ocr_for_windows_no_ocr split: sum.splits)

lemma ocr_cycle_captured:
  assumes "i \<in> set (captured (fst (ocr_cycle env s)))"
  shows "\<exists>evs windows. ocr_get_cursor_windows env = (evs, Inr windows) \<and> i \<in> w_index ` set windows"
proof (cases "ocr_get_cursor_windows env")
  case (Pair evs r)
  have c: "captured evs = []"
    using scripts_selected [OF ocr_get_cursor_windows_scripts [of env]] Pair by simp
  show ?thesis
  proof (cases r)
    case (Inl e)
    with Pair assms c show ?thesis
      by (simp add: ocr_cycle_def fst_io_bind captured_append)
  next
    case (Inr windows)
    with Pair assms c
    have "i \<in> set (captured (fst (ocr_for_windows env s windows)))"
      by (simp add: ocr_cycle_def fst_io_bind captured_append)
    with ocr_for_windows_captured [of env s windows] Pair Inr show ?thesis by blast
  qed
qed

lemma ocr_cycles_state: "ocr_cycles s envs = (evs, Inr s') \<Longrightarrow> s' = s"
proof (induction envs arbitrary: evs)
  case Nil
  then show ?case by (simp add: io_return_Inr_iff)
next
  case (Cons env envs)
  from Cons.prems obtain e1 s1 e2 where c: "ocr_cycle env s = (e1, Inr s1)"
    and r: "ocr_cycles s1 envs = (e2, Inr s')"
    by (auto simp: io_bind_Inr_iff)
  from ocr_cycle_state [OF c] r Cons.IH show ?case by simp
qed


section \<open>Minimized and small windows in the OCR script\<close>

text \<open>A system with three Cursor windows of 800 by 600: the first is minimized, the
  query for the second fails, the third is not minimized.\<close>

definition two_windows_env :: ocr_env where
  "two_windows_env =
     \<lparr>o_running = Out ''true'', o_count = Out ''3'', o_name = (\<lambda>i. Out ''Cursor''),
      o_position = (\<lambda>i. Out ''10, 20''), o_size = (\<lambda>i. Out ''800, 600''),
      o_minimized = (\<lambda>i. if i = 1 then Out ''true'' else if i = 2 then Failed else Out ''false''),
      o_capture_ok = (\<lambda>i. True), o_text = (\<lambda>i. ''claude 4: select 1 2 3''),
      o_focus = (\<lambda>i. Out []), o_keystroke = (\<lambda>i. Out []), o_keycode = (\<lambda>i. Out [])\<rparr>"

definition fresh_ocr_state :: ocr_state where
  "fresh_ocr_state = \<lparr>ocr_claude4_windows = {}, ocr_processed_selections = {}\<rparr>"

definition narrow_window :: window_info where
  "narrow_window =
     \<lparr>w_index = 1, w_title = ''Cursor'', w_x = Some 0, w_y = Some 0,
      w_width = Some 199, w_height = Some 600, w_minimized = False\<rparr>"

text \<open>
  C9. Every window list that the enumerator of the OCR script returns holds only windows
  whose minimized query did not answer true. So in a poll cycle only windows whose
  minimized query did not answer true are captured; and no window at all, minimized or
  not, reaches the recognition script or the autoresponder in a cycle, since the
  recognition step raises before it runs anything. A window whose minimized query fails
  is enumerated as not minimized and is in the list.
\<close>

theorem minimized_windows_left_out:
  "(ocr_get_cursor_windows env = (evs, Inr windows) \<and> w \<in> set windows \<longrightarrow>
      \<not> w_minimized w \<and> o_minimized env (w_index w) \<noteq> Out ''true'')
   \<and> (i \<in> set (captured (fst (ocr_cycle env s))) \<longrightarrow> o_minimized env i \<noteq> Out ''true'')
   \<and> OcrScript \<notin> set (fst (ocr_cycle env s))
   \<and> selected (fst (ocr_cycle env s)) = []
   \<and> (ocr_get_cursor_windows env = (evs, Inr windows) \<and> o_running env = Out ''true''
        \<and> o_count env = Out c \<and> py_isdigit c \<and> py_int c = Some n \<and> 1 \<le> j \<and> j \<le> n
        \<and> o_minimized env j = Failed \<longrightarrow> j \<in> w_index ` set windows)"
proof (intro conjI impI)
  assume "ocr_get_cursor_windows env = (evs, Inr windows) \<and> w \<in> set windows"
  then show "\<not> w_minimized w" "o_minimized env (w_index w) \<noteq> Out ''true''"
    using ocr_get_cursor_windows_not_minimized by blast+
next
  assume "i \<in> set (captured (fst (ocr_cycle env s)))"
  from ocr_cycle_captured [OF this]
  obtain evs' ws' w' where "ocr_get_cursor_windows env = (evs', Inr ws')" "w' \<in> set ws'"
    "i = w_index w'" by auto
  then show "o_minimized env i \<noteq> Out ''true''"
    using ocr_get_cursor_windows_not_minimized by blast
next
  show "OcrScript \<notin> set (fst (ocr_cycle env s))" by (rule ocr_cycle_no_ocr)
next
  show "selected (fst (ocr_cycle env s)) = []" by (rule ocr_cycle_selected)
next
  assume a: "ocr_get_cursor_windows env = (evs, Inr windows) \<and> o_running env = Out ''true''
        \<and> o_count env = Out c \<and> py_isdigit c \<and> py_int c = Some n \<and> 1 \<le> j \<and> j \<le> n
        \<and> o_minimized env j = Failed"
  then have "o_minimized env j \<noteq> Out ''true''" by simp
  with a show "j \<in> w_index ` set windows"
    using ocr_get_cursor_windows_complete [of env evs windows c n j] by blast
qed

theorem minimized_windows_left_out_witness:
  "map w_index (case snd (ocr_get_cursor_windows two_windows_env) of Inr ws \<Rightarrow> ws | Inl e \<Rightarrow> [])
     = [2, 3]
   \<and> captured (fst (ocr_cycle two_windows_env fresh_ocr_state)) = [2, 3]
   \<and> o_minimized two_windows_env 1 = Out ''true''
   \<and> o_minimized two_windows_env 2 \<noteq> Out ''true''
   \<and> o_minimized two_windows_env 3 \<noteq> Out ''true''
   \<and> OcrScript \<notin> set (fst (ocr_cycle two_windows_env fresh_ocr_state))
   \<and> selected (fst (ocr_cycle two_windows_env fresh_ocr_state)) = []
   \<and> 2 \<in> w_index ` set (case snd (ocr_get_cursor_windows two_windows_env) of Inr ws \<Rightarrow> ws | Inl e \<Rightarrow> [])"
proof -
  obtain evs ws where g: "ocr_get_cursor_windows two_windows_env = (evs, Inr ws)"
    and ix: "map w_index ws = [2, 3]"
  proof -
    have "snd (ocr_get_cursor_windows two_windows_env)
            = Inr (case snd (ocr_get_cursor_windows two_windows_env) of Inr ws \<Rightarrow> ws | Inl e \<Rightarrow> [])
          \<and> map w_index (case snd (ocr_get_cursor_windows two_windows_env) of Inr ws \<Rightarrow> ws | Inl e \<Rightarrow> []) = [2, 3]"
      by code_simp
    then show ?thesis using that [of "fst (ocr_get_cursor_windows two_windows_env)"]
      by (metis prod.collapse)
  qed
  have cap: "captured (fst (ocr_cycle two_windows_env fresh_ocr_state)) = [2, 3]"
    by code_simp
  have env: "o_running two_windows_env = Out ''true'' \<and> o_count two_windows_env = Out ''3''
      \<and> py_isdigit ''3'' \<and> py_int ''3'' = Some 3 \<and> (1::int) \<le> 2 \<and> (2::int) \<le> 3
      \<and> o_minimized two_windows_env 2 = Failed \<and> o_minimized two_windows_env 1 = Out ''true''"
    by code_simp
  have "2 \<in> set (captured (fst (ocr_cycle two_windows_env fresh_ocr_state)))"
    "3 \<in> set (captured (fst (ocr_cycle two_windows_env fresh_ocr_state)))"
    using cap by simp_all
  then show ?thesis
    using minimized_windows_left_out [of two_windows_env evs ws _ 2 fresh_ocr_state "''3''" 3 2]
      minimized_windows_left_out [of two_windows_env evs ws _ 3 fresh_ocr_state "''3''" 3 2]
      g ix cap env
    by simp
qed

text \<open>
  C7. A window whose reported width is below 200 or whose reported height is below 100
  (a size that was not reported counts as 0) is skipped by the OCR loop: the step for
  it causes no event at all, so no screen capture, no recognition and no keystroke, it
  leaves the state as it is, and the cycle goes on as if the window were not listed.
\<close>

theorem small_window_skipped:
  "get_or (w_width window) 0 < 200 \<or> get_or (w_height window) 0 < 100 \<Longrightarrow>
     ocr_window_step env s window = ([], Inr s)
     \<and> ocr_for_windows env s (window # rest) = ocr_for_windows env s rest"
  by (simp add: ocr_window_step_def Let_def io_return_def io_bind_def)

theorem small_window_skipped_witness:
  "(get_or (w_width narrow_window) 0 < 200 \<or> get_or (w_height narrow_window) 0 < 100)
   \<and> ocr_window_step two_windows_env fresh_ocr_state narrow_window = ([], Inr fresh_ocr_state)
   \<and> ocr_for_windows two_windows_env fresh_ocr_state [narrow_window]
       = ocr_for_windows two_windows_env fresh_ocr_state []"
proof -
  have h: "get_or (w_width narrow_window) 0 < 200 \<or> get_or (w_height narrow_window) 0 < 100"
    by (simp add: narrow_window_def get_or_def)
  show ?thesis
    using small_window_skipped [OF h, of two_windows_env fresh_ocr_state "[]"] h by blast
qed

section \<open>Keys, and the loop of the accessibility monitor\<close>

subsection \<open>Window keys are injective\<close>

declare str_nat.simps [simp del]
















subsection \<open>The loop of the accessibility monitor\<close>

definition mon_key :: "mon_window \<Rightarrow> string" where
  "mon_key w = mon_window_key (mw_index w) (mw_title w)"

lemma current_window_keys_eq: "current_window_keys ws = mon_key ` set ws"
  by (simp add: current_window_keys_def mon_key_def)

lemma selected_mon_check_for_claude4_io:
  "selected (fst (mon_check_for_claude4_io env i)) = []"
  by (simp add: mon_check_for_claude4_io_def mon_get_window_ui_elements_def fst_io_bind
      fst_io_return selected_append selected_run_osascript split: sum.splits)

lemma selected_mon_check_for_options_menu_io:
  "selected (fst (mon_check_for_options_menu_io env i)) = []"
  by (simp add: mon_check_for_options_menu_io_def mon_get_window_ui_elements_def fst_io_bind
      fst_io_return selected_append selected_run_osascript split: sum.splits)

lemma selected_select_option_2: "selected (fst (select_option_2 env i)) = [i]"
  by (simp add: select_option_2_def fst_io_bind selected_append
      selected_run_osascript fst_io_return split: sum.splits)

lemma mon_step_selected:
  assumes "i \<in> set (selected (fst (mon_window_step env s w)))"
  shows "i = mw_index w \<and> mon_key w \<notin> mon_processed_menus s"
  using assms
  by (auto simp: mon_window_step_def mon_key_def Let_def fst_io_bind fst_io_return
      selected_append selected_mon_check_for_claude4_io selected_mon_check_for_options_menu_io
      selected_select_option_2 split: sum.splits if_splits)

lemma mon_step_state:
  assumes "mon_window_step env s w = (evs, Inr s')"
  shows "mon_claude4_windows s \<subseteq> mon_claude4_windows s'
    \<and> mon_processed_menus s \<subseteq> mon_processed_menus s'
    \<and> mon_processed_menus s' \<subseteq> insert (mon_key w) (mon_processed_menus s)
    \<and> (selected evs \<noteq> [] \<longrightarrow> mon_key w \<in> mon_processed_menus s')"
proof -
  define i where "i = mw_index w"
  define s1 where "s1 = (\<lambda>has. if has \<and> i \<notin> mon_claude4_windows s
                  then s\<lparr>mon_claude4_windows := insert i (mon_claude4_windows s)\<rparr> else s)"
  have s1: "mon_claude4_windows s \<subseteq> mon_claude4_windows (s1 has)"
    "mon_processed_menus (s1 has) = mon_processed_menus s" for has
    by (auto simp: s1_def)
  from assms obtain e1 has e2 where
    c4: "mon_check_for_claude4_io env i = (e1, Inr has)"
    and rest: "(if has \<or> i \<in> mon_claude4_windows (s1 has) then
             io_bind (mon_check_for_options_menu_io env i) (\<lambda>menu.
                if menu \<and> mon_key w \<notin> mon_processed_menus (s1 has) then
                  io_bind (select_option_2 env i) (\<lambda>_.
                  io_return
                    ((s1 has)\<lparr>mon_processed_menus := insert (mon_key w) (mon_processed_menus (s1 has))\<rparr>))
                else io_return (s1 has))
           else io_return (s1 has)) = (e2, Inr s')"
    and evs: "evs = e1 @ e2"
    unfolding mon_window_step_def Let_def io_bind_Inr_iff i_def s1_def mon_key_def by blast
  have e1: "selected e1 = []"
    using selected_mon_check_for_claude4_io [of env i] c4 by simp
  show ?thesis
  proof (cases "has \<or> i \<in> mon_claude4_windows (s1 has)")
    case False
    with rest have "s' = s1 has" "e2 = []" by (simp_all add: io_return_Inr_iff)
    with s1 evs e1 show ?thesis by auto
  next
    case True
    with rest have "io_bind (mon_check_for_options_menu_io env i) (\<lambda>menu.
                if menu \<and> mon_key w \<notin> mon_processed_menus (s1 has) then
                  io_bind (select_option_2 env i) (\<lambda>_.
                  io_return
                    ((s1 has)\<lparr>mon_processed_menus := insert (mon_key w) (mon_processed_menus (s1 has))\<rparr>))
                else io_return (s1 has)) = (e2, Inr s')"
      by (simp only: if_True)
    then obtain e3 menu e4 where
      m: "mon_check_for_options_menu_io env i = (e3, Inr menu)"
      and fire: "(if menu \<and> mon_key w \<notin> mon_processed_menus (s1 has) then
                  io_bind (select_option_2 env i) (\<lambda>_.
                  io_return
                    ((s1 has)\<lparr>mon_processed_menus := insert (mon_key w) (mon_processed_menus (s1 has))\<rparr>))
                else io_return (s1 has)) = (e4, Inr s')"
      and e2: "e2 = e3 @ e4"
      unfolding io_bind_Inr_iff by blast
    have e3: "selected e3 = []"
      using selected_mon_check_for_options_menu_io [of env i] m by simp
    show ?thesis
    proof (cases "menu \<and> mon_key w \<notin> mon_processed_menus (s1 has)")
      case False
      with fire have "s' = s1 has" "e4 = []" by (simp_all add: io_return_Inr_iff)
      with s1 evs e1 e2 e3 show ?thesis by (auto simp: selected_append)
    next
      case True
      with fire have "s' = (s1 has)\<lparr>mon_processed_menus := insert (mon_key w) (mon_processed_menus (s1 has))\<rparr>"
        by (auto simp: io_bind_Inr_iff io_return_Inr_iff)
      with s1 [of has] show ?thesis by auto
    qed
  qed
qed


lemma mon_for_windows_state:
  "mon_for_windows env s ws = (evs, Inr s') \<Longrightarrow>
     mon_claude4_windows s \<subseteq> mon_claude4_windows s'
     \<and> mon_processed_menus s \<subseteq> mon_processed_menus s'
     \<and> mon_processed_menus s' \<subseteq> mon_processed_menus s \<union> mon_key ` set ws
     \<and> (\<forall>i \<in> set (selected evs). \<exists>w \<in> set ws. mw_index w = i \<and> mon_key w \<in> mon_processed_menus s')"
proof (induction ws arbitrary: s evs)
  case Nil
  then show ?case by (simp add: io_return_Inr_iff)
next
  case (Cons w ws)
  from Cons.prems obtain e1 s1 e2 where
    step: "mon_window_step env s w = (e1, Inr s1)"
    and tail: "mon_for_windows env s1 ws = (e2, Inr s')"
    and evs: "evs = e1 @ e2"
    by (auto simp: io_bind_Inr_iff)
  note st = mon_step_state [OF step]
  note ih = Cons.IH [OF tail]
  have sel1: "\<forall>i \<in> set (selected e1). i = mw_index w"
    using mon_step_selected [of _ env s w] step by simp
  have "\<forall>i \<in> set (selected e1). mon_key w \<in> mon_processed_menus s'"
    using st ih by auto
  with sel1 st ih evs show ?case by (auto simp: selected_append)
qed

lemma mon_window_loop_indices:
  "mon_window_loop env idxs = (evs, Inr ws) \<Longrightarrow> map mw_index ws = idxs"
proof (induction idxs arbitrary: evs ws)
  case Nil
  then show ?case by (simp add: io_return_Inr_iff)
next
  case (Cons i rest)
  from Cons.prems obtain e' ws' r where "mon_window_loop env rest = (e', Inr ws')"
    "ws = \<lparr>mw_index = i, mw_title = or_else r ''Unknown''\<rparr> # ws'"
    by (auto simp: io_bind_Inr_iff io_return_Inr_iff)
  with Cons.IH show ?case by auto
qed

lemma mon_get_cursor_windows_distinct:
  assumes "mon_get_cursor_windows env = (evs, Inr ws)"
  shows "distinct (map mw_index ws)"
proof -
  from assms have "ws = [] \<or> (\<exists>e n. mon_window_loop env [1..n] = (e, Inr ws))"
    by (auto simp: mon_get_cursor_windows_def io_bind_Inr_iff io_return_Inr_iff
        split: if_splits)
  then show ?thesis
  proof
    assume "ws = []"
    then show ?thesis by simp
  next
    assume "\<exists>e n. mon_window_loop env [1..n] = (e, Inr ws)"
    then obtain e n where "mon_window_loop env [1..n] = (e, Inr ws)" by blast
    from mon_window_loop_indices [OF this] show ?thesis by simp
  qed
qed

lemma selected_mon_window_loop: "selected (fst (mon_window_loop env idxs)) = []"
proof (induction idxs)
  case Nil
  show ?case by (simp add: fst_io_return)
next
  case (Cons i rest)
  then show ?case
    by (simp add: fst_io_bind selected_append selected_run_osascript fst_io_return
        split: sum.splits)
qed

lemma selected_mon_get_cursor_windows: "selected (fst (mon_get_cursor_windows env)) = []"
  by (simp add: mon_get_cursor_windows_def fst_io_bind selected_append selected_run_osascript
      selected_mon_window_loop fst_io_return fst_py_int_io split: sum.splits)

lemma mon_cycle_Inr:
  assumes "mon_cycle env s = (evs, Inr s')"
  shows "\<exists>e0 ws e1 s1. mon_get_cursor_windows env = (e0, Inr ws)
      \<and> mon_for_windows env s ws = (e1, Inr s1) \<and> evs = e0 @ e1
      \<and> s' = s1\<lparr>mon_processed_menus := mon_processed_menus s1 \<inter> current_window_keys ws\<rparr>"
  using assms unfolding mon_cycle_def io_bind_Inr_iff io_return_Inr_iff by auto


lemma distinct_index_same:
  "distinct (map f ws) \<Longrightarrow> w \<in> set ws \<Longrightarrow> w' \<in> set ws \<Longrightarrow> f w = f w' \<Longrightarrow> w = w'"
  by (meson distinct_map inj_onD)

lemma mon_cycle_state:
  assumes "mon_cycle env s = (evs, Inr s')" "mon_get_cursor_windows env = (e0, Inr ws)"
  shows "mon_claude4_windows s \<subseteq> mon_claude4_windows s'"
    and "mon_processed_menus s' \<subseteq> current_window_keys ws"
    and "w \<in> set ws \<Longrightarrow> mon_key w \<in> mon_processed_menus s \<Longrightarrow> mon_key w \<in> mon_processed_menus s'"
    and "w \<in> set ws \<Longrightarrow> mw_index w \<in> set (selected evs) \<Longrightarrow> mon_key w \<in> mon_processed_menus s'"
proof -
  from mon_cycle_Inr [OF assms(1)] assms(2) obtain e1 s1 where
    loop: "mon_for_windows env s ws = (e1, Inr s1)" and evs: "evs = e0 @ e1"
    and s': "s' = s1\<lparr>mon_processed_menus := mon_processed_menus s1 \<inter> current_window_keys ws\<rparr>"
    by auto
  note st = mon_for_windows_state [OF loop]
  show "mon_claude4_windows s \<subseteq> mon_claude4_windows s'" using st s' by simp
  show "mon_processed_menus s' \<subseteq> current_window_keys ws" using s' by simp
  show "mon_key w \<in> mon_processed_menus s'" if "w \<in> set ws" "mon_key w \<in> mon_processed_menus s"
    using that st s' by (auto simp: current_window_keys_eq)
  show "mon_key w \<in> mon_processed_menus s'" if w: "w \<in> set ws" "mw_index w \<in> set (selected evs)"
  proof -
    have "selected e0 = []"
      using selected_mon_get_cursor_windows [of env] assms(2) by simp
    with w(2) evs have "mw_index w \<in> set (selected e1)" by (simp add: selected_append)
    with st obtain w' where w': "w' \<in> set ws" "mw_index w' = mw_index w"
      "mon_key w' \<in> mon_processed_menus s1" by blast
    have "w' = w"
      using mon_get_cursor_windows_distinct [OF assms(2)] w'(1) w(1) w'(2)
      by (rule distinct_index_same)
    with w' w(1) s' show ?thesis by (auto simp: current_window_keys_eq)
  qed
qed

lemma mon_cycles_claude4_grows:
  "mon_cycles s envs = (evs, Inr s') \<Longrightarrow> mon_claude4_windows s \<subseteq> mon_claude4_windows s'"
proof (induction envs arbitrary: s evs)
  case Nil
  then show ?case by (simp add: io_return_Inr_iff)
next
  case (Cons env envs)
  from Cons.prems obtain e1 s1 e2 where c: "mon_cycle env s = (e1, Inr s1)"
    and rest: "mon_cycles s1 envs = (e2, Inr s')"
    by (auto simp: io_bind_Inr_iff)
  from mon_cycle_Inr [OF c] obtain e0 ws where "mon_get_cursor_windows env = (e0, Inr ws)"
    by blast
  from mon_cycle_state(1) [OF c this] Cons.IH [OF rest] show ?case by blast
qed

section \<open>Concrete runs used below\<close>

text \<open>A system with one Cursor window of the given title, whose element tree is the given
  content, answering every call.\<close>

definition one_window_env :: "string \<Rightarrow> string \<Rightarrow> mon_env" where
  "one_window_env title content =
     \<lparr>m_running = Out ''true'', m_count = Out ''1'', m_name = (\<lambda>i. Out title),
      m_contents_claude4 = (\<lambda>i. Out content), m_name_claude4 = (\<lambda>i. Out title),
      m_contents_menu = (\<lambda>i. Out content),
      m_focus = (\<lambda>i. Out []), m_keystroke = (\<lambda>i. Out []), m_keycode = (\<lambda>i. Out [])\<rparr>"

definition fresh_mon_state :: mon_state where
  "fresh_mon_state = \<lparr>mon_claude4_windows = {}, mon_processed_menus = {}\<rparr>"

section \<open>The SeenSet and the flagged windows\<close>

lemma monitor_with_ocr_state:
  assumes "monitor_with_ocr envs = (evs, Inr s)"
  shows "ocr_claude4_windows s = {} \<and> ocr_processed_selections s = {}"
  using ocr_cycles_state [OF assms [unfolded monitor_with_ocr_def]] by simp

text \<open>
  C2. In the accessibility script, after a poll cycle the SeenSet (\<open>processed_menus\<close>)
  holds only keys of windows of the window list of that cycle: a key whose window is no
  longer listed is gone. In the OCR script the SeenSet (\<open>processed_selections\<close>) is
  empty after every cycle of a run, since the recognition step raises before a key can
  be stored; so it too holds only keys of windows of the current list.
\<close>

theorem seen_set_pruning:
  "(mon_cycle env s = (evs, Inr s') \<longrightarrow>
      (\<exists>e0 windows. mon_get_cursor_windows env = (e0, Inr windows)
         \<and> mon_processed_menus s' \<subseteq> current_window_keys windows))
   \<and> (monitor_with_ocr oenvs = (oevs, Inr os') \<longrightarrow> ocr_processed_selections os' = {})"
proof (intro conjI impI)
  assume c: "mon_cycle env s = (evs, Inr s')"
  from mon_cycle_Inr [OF c] obtain e0 windows where
    g: "mon_get_cursor_windows env = (e0, Inr windows)" by blast
  from mon_cycle_state(2) [OF c g] g
  show "\<exists>e0 windows. mon_get_cursor_windows env = (e0, Inr windows)
         \<and> mon_processed_menus s' \<subseteq> current_window_keys windows" by blast
next
  assume "monitor_with_ocr oenvs = (oevs, Inr os')"
  from monitor_with_ocr_state [OF this]
  show "ocr_processed_selections os' = {}" by simp
qed

theorem seen_set_pruning_witness:
  "mon_cycle (one_window_env ''Cursor'' ''[1][2][3]'')
       \<lparr>mon_claude4_windows = {1}, mon_processed_menus = {''1_claude 4''}\<rparr>
     = ([Script ProcessRunning, Script CountWindows, Script (GetName 1),
         Script (EntireContents 1), Script (GetName 1), Script (EntireContents 1),
         Script (FocusClick 1), Script (Keystroke ''2''), Script (KeyCode 36)],
        Inr \<lparr>mon_claude4_windows = {1}, mon_processed_menus = {''1_Cursor''}\<rparr>)
   \<and> {''1_Cursor''} \<subseteq> current_window_keys [\<lparr>mw_index = 1, mw_title = ''Cursor''\<rparr>]
   \<and> monitor_with_ocr [two_windows_env, two_windows_env]
     = ([Script ProcessRunning, Script CountWindows,
         Script (GetName 1), Script (GetPosition 1), Script (GetSize 1), Script (GetMinimized 1),
         Script (GetName 2), Script (GetPosition 2), Script (GetSize 2), Script (GetMinimized 2),
         Script (GetName 3), Script (GetPosition 3), Script (GetSize 3), Script (GetMinimized 3),
         Screencapture 2 10 20 800 600, Screencapture 3 10 20 800 600,
         Script ProcessRunning, Script CountWindows,
         Script (GetName 1), Script (GetPosition 1), Script (GetSize 1), Script (GetMinimized 1),
         Script (GetName 2), Script (GetPosition 2), Script (GetSize 2), Script (GetMinimized 2),
         Script (GetName 3), Script (GetPosition 3), Script (GetSize 3), Script (GetMinimized 3),
         Screencapture 2 10 20 800 600, Screencapture 3 10 20 800 600],
        Inr fresh_ocr_state)
   \<and> ocr_processed_selections fresh_ocr_state = {}"
proof -
  let ?env = "one_window_env ''Cursor'' ''[1][2][3]''"
  let ?s = "\<lparr>mon_claude4_windows = {1}, mon_processed_menus = {''1_claude 4''}\<rparr>"
  let ?s' = "\<lparr>mon_claude4_windows = {1}, mon_processed_menus = {''1_Cursor''}\<rparr>"
  let ?evs = "[Script ProcessRunning, Script CountWindows, Script (GetName 1),
         Script (EntireContents 1), Script (GetName 1), Script (EntireContents 1),
         Script (FocusClick 1), Script (Keystroke ''2''), Script (KeyCode 36)]"
  let ?oevs = "[Script ProcessRunning, Script CountWindows,
         Script (GetName 1), Script (GetPosition 1), Script (GetSize 1), Script (GetMinimized 1),
         Script (GetName 2), Script (GetPosition 2), Script (GetSize 2), Script (GetMinimized 2),
         Script (GetName 3), Script (GetPosition 3), Script (GetSize 3), Script (GetMinimized 3),
         Screencapture 2 10 20 800 600, Screencapture 3 10 20 800 600,
         Script ProcessRunning, Script CountWindows,
         Script (GetName 1), Script (GetPosition 1), Script (GetSize 1), Script (GetMinimized 1),
         Script (GetName 2), Script (GetPosition 2), Script (GetSize 2), Script (GetMinimized 2),
         Script (GetName 3), Script (GetPosition 3), Script (GetSize 3), Script (GetMinimized 3),
         Screencapture 2 10 20 800 600, Screencapture 3 10 20 800 600]"
  have 1: "mon_cycle ?env ?s = (?evs, Inr ?s')"
    by code_simp
  have 2: "mon_get_cursor_windows ?env
      = ([Script ProcessRunning, Script CountWindows, Script (GetName 1)],
         Inr [\<lparr>mw_index = 1, mw_title = ''Cursor''\<rparr>])"
    by code_simp
  have 3: "monitor_with_ocr [two_windows_env, two_windows_env] = (?oevs, Inr fresh_ocr_state)"
    by code_simp
  have 4: "mon_processed_menus ?s' = {''1_Cursor''}" by simp
  from seen_set_pruning [of ?env ?s ?evs ?s' "[two_windows_env, two_windows_env]" ?oevs
      fresh_ocr_state] 1 3
  have "(\<exists>e0 windows. mon_get_cursor_windows ?env = (e0, Inr windows)
         \<and> mon_processed_menus ?s' \<subseteq> current_window_keys windows)
      \<and> ocr_processed_selections fresh_ocr_state = {}"
    by (simp only: simp_thms)
  then have "mon_processed_menus ?s' \<subseteq> current_window_keys [\<lparr>mw_index = 1, mw_title = ''Cursor''\<rparr>]"
    and "ocr_processed_selections fresh_ocr_state = {}"
    unfolding 2 by blast+
  with 1 3 show ?thesis unfolding 4 by (intro conjI)
qed

subsection \<open>A flagged index in the accessibility monitor\<close>

text \<open>What \<open>get_window_ui_elements\<close> returns for an answer of the system.\<close>

definition content_of :: "osa \<Rightarrow> string" where
  "content_of answer = (case answer of Out s \<Rightarrow> s | _ \<Rightarrow> [])"

lemma mon_check_for_options_menu_io_Inr:
  assumes "mon_check_for_options_menu_io env i = (e, Inr menu)"
  shows "menu = mon_check_for_options_menu (content_of (m_contents_menu env i))"
  using assms
  by (cases "m_contents_menu env i")
     (auto simp: mon_check_for_options_menu_io_def mon_get_window_ui_elements_def
        io_bind_Inr_iff io_return_Inr_iff run_osascript_Inr_iff content_of_def or_else_def)

lemma select_option_2_Inr: "select_option_2 env i = (e, Inr u) \<Longrightarrow> selected e = [i]"
  using selected_select_option_2 [of env i] by simp

lemma mon_step_flagged:
  assumes "mw_index w \<in> mon_claude4_windows s" "mon_window_step env s w = (evs, Inr s')"
  shows "mw_index w \<in> set (selected evs) \<longleftrightarrow>
     mon_check_for_options_menu (content_of (m_contents_menu env (mw_index w)))
     \<and> mon_window_key (mw_index w) (mw_title w) \<notin> mon_processed_menus s"
proof -
  define i where "i = mw_index w"
  define k where "k = mon_window_key i (mw_title w)"
  have "mon_window_step env s w =
      io_bind (mon_check_for_claude4_io env i) (\<lambda>has.
      io_bind (mon_check_for_options_menu_io env i) (\<lambda>menu.
                if menu \<and> k \<notin> mon_processed_menus s then
                  io_bind (select_option_2 env i) (\<lambda>_.
                  io_return (s\<lparr>mon_processed_menus := insert k (mon_processed_menus s)\<rparr>))
                else io_return s))"
    unfolding mon_window_step_def Let_def i_def k_def
    by (rule arg_cong [where f = "io_bind (mon_check_for_claude4_io env (mw_index w))"], rule ext)
       (simp add: assms(1))
  with assms(2) have "io_bind (mon_check_for_claude4_io env i) (\<lambda>has.
      io_bind (mon_check_for_options_menu_io env i) (\<lambda>menu.
                if menu \<and> k \<notin> mon_processed_menus s then
                  io_bind (select_option_2 env i) (\<lambda>_.
                  io_return (s\<lparr>mon_processed_menus := insert k (mon_processed_menus s)\<rparr>))
                else io_return s)) = (evs, Inr s')" by simp
  from this [unfolded io_bind_Inr_iff [of "mon_check_for_claude4_io env i"]]
  obtain e1 has e2 where
    c4: "mon_check_for_claude4_io env i = (e1, Inr has)"
    and rest: "io_bind (mon_check_for_options_menu_io env i) (\<lambda>menu.
                if menu \<and> k \<notin> mon_processed_menus s then
                  io_bind (select_option_2 env i) (\<lambda>_.
                  io_return (s\<lparr>mon_processed_menus := insert k (mon_processed_menus s)\<rparr>))
                else io_return s) = (e2, Inr s')"
    and evs: "evs = e1 @ e2"
    by blast
  have e1: "selected e1 = []"
    using selected_mon_check_for_claude4_io [of env i] c4 by simp
  from rest obtain e3 menu e4 where
    m: "mon_check_for_options_menu_io env i = (e3, Inr menu)"
    and fire: "(if menu \<and> k \<notin> mon_processed_menus s then
                  io_bind (select_option_2 env i) (\<lambda>_.
                  io_return (s\<lparr>mon_processed_menus := insert k (mon_processed_menus s)\<rparr>))
                else io_return s) = (e4, Inr s')"
    and e2: "e2 = e3 @ e4"
    unfolding io_bind_Inr_iff by blast
  have e3: "selected e3 = []"
    using selected_mon_check_for_options_menu_io [of env i] m by simp
  have menu: "menu = mon_check_for_options_menu (content_of (m_contents_menu env i))"
    using m by (rule mon_check_for_options_menu_io_Inr)
  have "selected e4 = (if menu \<and> k \<notin> mon_processed_menus s then [i] else [])"
    using fire
    by (auto simp: io_bind_Inr_iff io_return_Inr_iff selected_append
        dest: select_option_2_Inr split: if_splits)
  with e1 e3 evs e2 menu show ?thesis
    by (simp add: selected_append i_def k_def)
qed

text \<open>
  C10. In both scripts the set of flagged windows is a set of window indices and only
  grows during a run. In the accessibility script a flagged index is enough: for a
  window at a flagged index the menu is looked for, and the autoresponse is sent exactly
  when a menu is found and the key of the window is not in the SeenSet, whether or not
  the trigger is still there. In the OCR script no index is ever flagged in a run, since
  the recognition step raises before the trigger is looked for; so there is no flagged
  index for which the menu detection could be left out.
\<close>

theorem flagged_windows:
  "(mon_cycles s envs = (evs, Inr s') \<longrightarrow> mon_claude4_windows s \<subseteq> mon_claude4_windows s')
   \<and> (ocr_cycles os oenvs = (oevs, Inr os') \<longrightarrow>
        ocr_claude4_windows os \<subseteq> ocr_claude4_windows os')
   \<and> (mw_index w \<in> mon_claude4_windows ms \<and> mon_window_step env ms w = (evs1, Inr ms1) \<longrightarrow>
        (mw_index w \<in> set (selected evs1)) =
        (mon_check_for_options_menu (content_of (m_contents_menu env (mw_index w)))
         \<and> mon_window_key (mw_index w) (mw_title w) \<notin> mon_processed_menus ms))
   \<and> (monitor_with_ocr oenvs2 = (oevs2, Inr os2) \<longrightarrow> ocr_claude4_windows os2 = {})"
  using mon_cycles_claude4_grows [of s envs evs s'] ocr_cycles_state [of os oenvs oevs os']
    mon_step_flagged [of w ms env evs1 ms1] monitor_with_ocr_state [of oenvs2 oevs2 os2]
  by blast

theorem flagged_windows_witness:
  "\<not> mon_mentions_claude4 ''[1][2][3]'' \<and> \<not> mon_mentions_claude4 ''Cursor''
   \<and> mon_claude4_windows \<lparr>mon_claude4_windows = {1}, mon_processed_menus = {}\<rparr>
       \<subseteq> mon_claude4_windows \<lparr>mon_claude4_windows = {1}, mon_processed_menus = {''1_Cursor''}\<rparr>
   \<and> ocr_claude4_windows \<lparr>ocr_claude4_windows = {2}, ocr_processed_selections = {}\<rparr>
       \<subseteq> ocr_claude4_windows \<lparr>ocr_claude4_windows = {2}, ocr_processed_selections = {}\<rparr>
   \<and> 1 \<in> set (selected [Script (EntireContents 1), Script (GetName 1),
         Script (EntireContents 1), Script (FocusClick 1), Script (Keystroke ''2''),
         Script (KeyCode 36)])
   \<and> ocr_claude4_windows fresh_ocr_state = {}"
proof -
  let ?s = "\<lparr>mon_claude4_windows = {1}, mon_processed_menus = {}\<rparr>"
  let ?s' = "\<lparr>mon_claude4_windows = {1}, mon_processed_menus = {''1_Cursor''}\<rparr>"
  let ?env = "one_window_env ''Cursor'' ''[1][2][3]''"
  let ?w = "\<lparr>mw_index = 1, mw_title = ''Cursor''\<rparr>"
  let ?evs1 = "[Script (EntireContents 1), Script (GetName 1),
         Script (EntireContents 1), Script (FocusClick 1), Script (Keystroke ''2''),
         Script (KeyCode 36)]"
  let ?os = "\<lparr>ocr_claude4_windows = {2}, ocr_processed_selections = {}\<rparr>"
  let ?oevs = "[Script ProcessRunning, Script CountWindows,
         Script (GetName 1), Script (GetPosition 1), Script (GetSize 1), Script (GetMinimized 1),
         Script (GetName 2), Script (GetPosition 2), Script (GetSize 2), Script (GetMinimized 2),
         Script (GetName 3), Script (GetPosition 3), Script (GetSize 3), Script (GetMinimized 3),
         Screencapture 2 10 20 800 600, Screencapture 3 10 20 800 600]"
  have 0: "\<not> mon_mentions_claude4 ''[1][2][3]'' \<and> \<not> mon_mentions_claude4 ''Cursor''"
    by code_simp
  have 1: "mon_cycles ?s [?env] =
     ([Script ProcessRunning, Script CountWindows, Script (GetName 1)] @ ?evs1, Inr ?s')"
    by code_simp
  have 2: "ocr_cycles ?os [two_windows_env] = (?oevs, Inr ?os)"
    by code_simp
  have 3: "mw_index ?w \<in> mon_claude4_windows ?s \<and> mon_window_step ?env ?s ?w = (?evs1, Inr ?s')"
    by code_simp
  have 4: "monitor_with_ocr [two_windows_env] = (?oevs, Inr fresh_ocr_state)"
    by code_simp
  from flagged_windows [of ?s "[?env]" _ ?s' ?os "[two_windows_env]" ?oevs ?os
      ?w ?s ?env ?evs1 ?s' "[two_windows_env]" ?oevs fresh_ocr_state]
    0 1 2 3 4
  show ?thesis by simp
qed

subsection \<open>Seen keys and repeated triggering\<close>






section \<open>The command line tool: \<open>cursor-window-monitor.py\<close>\<close>

text \<open>The answers of the system to the queries of one enumeration of the windows, as the
  command line tool and the graphical tool make it.\<close>

record win_answers =
  a_running :: osa
  a_count :: osa
  a_name :: "int \<Rightarrow> osa"
  a_position :: "int \<Rightarrow> osa"
  a_size :: "int \<Rightarrow> osa"
  a_minimized :: "int \<Rightarrow> osa"

text \<open>A window as the dictionary both tools build: \<open>position\<close> and \<open>size\<close> are absent
  when their query gave nothing.\<close>

record window_dict =
  d_index :: int
  d_title :: string
  d_position :: "int list option"
  d_size :: "int list option"
  d_minimized :: bool

text \<open>\<open>[int(x) for x in s.split(", ")]\<close>.\<close>

fun int_list :: "string list \<Rightarrow> int list io" where
  "int_list [] = io_return []"
| "int_list (p # ps) =
     io_bind (py_int_io p) (\<lambda>i. io_bind (int_list ps) (\<lambda>rest. io_return (i # rest)))"

definition opt_int_list :: "string option \<Rightarrow> int list option io" where
  "opt_int_list r =
     (if or_else r [] = [] then io_return None
      else io_bind (int_list (split_comma_space (or_else r []))) (\<lambda>l. io_return (Some l)))"

definition is_cursor_running :: "win_answers \<Rightarrow> bool io" where
  "is_cursor_running ans =
     io_bind (run_osascript ProcessRunning (a_running ans)) (\<lambda>result.
     io_return (result = Some ''true''))"

definition get_window_count :: "win_answers \<Rightarrow> int io" where
  "get_window_count ans =
     io_bind (run_osascript CountWindows (a_count ans)) (\<lambda>result.
       if or_else result [] \<noteq> [] \<and> py_isdigit (or_else result [])
       then py_int_io (or_else result []) else io_return 0)"

definition get_window_info :: "win_answers \<Rightarrow> int \<Rightarrow> window_dict io" where
  "get_window_info ans window_index =
     io_bind (run_osascript (GetName window_index) (a_name ans window_index)) (\<lambda>name.
     io_bind (run_osascript (GetPosition window_index) (a_position ans window_index)) (\<lambda>pos.
     io_bind (opt_int_list pos) (\<lambda>position.
     io_bind (run_osascript (GetSize window_index) (a_size ans window_index)) (\<lambda>size.
     io_bind (opt_int_list size) (\<lambda>size_list.
     io_bind (run_osascript (GetMinimized window_index) (a_minimized ans window_index)) (\<lambda>m.
     io_return
       \<lparr>d_index = window_index, d_title = or_else name ''Unknown'', d_position = position,
        d_size = size_list, d_minimized = (m = Some ''true'')\<rparr>))))))"

fun window_info_loop :: "win_answers \<Rightarrow> int list \<Rightarrow> window_dict list io" where
  "window_info_loop ans [] = io_return []"
| "window_info_loop ans (i # rest) =
     io_bind (get_window_info ans i) (\<lambda>window_info.
     io_bind (window_info_loop ans rest) (\<lambda>windows.
     io_return (window_info # windows)))"

definition list_all_windows :: "win_answers \<Rightarrow> window_dict list io" where
  "list_all_windows ans =
     io_bind (is_cursor_running ans) (\<lambda>running.
       if \<not> running then io_return []
       else
         io_bind (get_window_count ans) (\<lambda>window_count.
           if window_count = 0 then io_return []
           else window_info_loop ans [1..window_count]))"

text \<open>The actuators: one call each, whose result is not looked at.\<close>

definition act :: "os_cmd \<Rightarrow> osa \<Rightarrow> unit io" where
  "act cmd answer = io_bind (run_osascript cmd answer) (\<lambda>_. io_return ())"

definition focus_window :: "int \<Rightarrow> osa \<Rightarrow> unit io" where
  "focus_window window_index answer = act (FocusClick window_index) answer"

definition minimize_window :: "int \<Rightarrow> osa \<Rightarrow> unit io" where
  "minimize_window window_index answer = act (SetMinimized window_index True) answer"

definition unminimize_window :: "int \<Rightarrow> osa \<Rightarrow> unit io" where
  "unminimize_window window_index answer = act (SetMinimized window_index False) answer"

definition close_window :: "int \<Rightarrow> osa \<Rightarrow> unit io" where
  "close_window window_index answer = act (ClickButton1 window_index) answer"

definition move_window :: "int \<Rightarrow> int \<Rightarrow> int \<Rightarrow> osa \<Rightarrow> unit io" where
  "move_window window_index x y answer = act (SetPosition window_index x y) answer"

definition resize_window :: "int \<Rightarrow> int \<Rightarrow> int \<Rightarrow> osa \<Rightarrow> unit io" where
  "resize_window window_index width height answer = act (SetSize window_index width height) answer"

text \<open>\<open>time.sleep(secs)\<close> for an integer: a negative length is refused, and so is one
  beyond the range of the clock (64 bits of nanoseconds).\<close>

definition sleep :: "int \<Rightarrow> unit io" where
  "sleep secs =
     (if secs < - 9223372036 \<or> 9223372036 < secs then io_raise OverflowError
      else if secs < 0 then io_raise ValueError
      else io_return ())"

text \<open>\<open>monitor_windows\<close>: the polls that happen before the keyboard interrupt, which
  ends the function in the ordinary way. The report it prints when the list has changed
  is left out, so only the enumeration shows.\<close>

fun monitor_windows :: "int \<Rightarrow> window_dict list \<Rightarrow> win_answers list \<Rightarrow> unit io" where
  "monitor_windows interval previous_state [] = io_return ()"
| "monitor_windows interval previous_state (ans # polls) =
     io_bind (list_all_windows ans) (\<lambda>current_windows.
     io_bind (sleep interval) (\<lambda>_.
       monitor_windows interval
         (if current_windows \<noteq> previous_state then current_windows else previous_state)
         polls))"

text \<open>The inputs of one invocation: the answer to the call of an actuator, the answers
  to the enumeration of \<open>list\<close>, and the answers to the enumerations of \<open>monitor\<close>,
  poll by poll.\<close>

record cli_env =
  c_answer :: osa
  c_list :: win_answers
  c_polls :: "win_answers list"

definition cli_main :: "string list \<Rightarrow> cli_env \<Rightarrow> unit io" where
  "cli_main argv env =
     (if length argv < 2 then io_return ()
      else
        (let command = py_lower (argv ! 1) in
         if command = ''list'' then
           io_bind (list_all_windows (c_list env)) (\<lambda>windows. io_return ())
         else if command = ''monitor'' then
           io_bind (if length argv > 2 then py_int_io (argv ! 2) else io_return 1) (\<lambda>interval.
           monitor_windows interval [] (c_polls env))
         else if command = ''focus'' \<and> length argv > 2 then
           io_bind (py_int_io (argv ! 2)) (\<lambda>i. focus_window i (c_answer env))
         else if command = ''minimize'' \<and> length argv > 2 then
           io_bind (py_int_io (argv ! 2)) (\<lambda>i. minimize_window i (c_answer env))
         else if command = ''unminimize'' \<and> length argv > 2 then
           io_bind (py_int_io (argv ! 2)) (\<lambda>i. unminimize_window i (c_answer env))
         else if command = ''close'' \<and> length argv > 2 then
           io_bind (py_int_io (argv ! 2)) (\<lambda>i. close_window i (c_answer env))
         else if command = ''move'' \<and> length argv > 4 then
           io_bind (py_int_io (argv ! 2)) (\<lambda>i.
           io_bind (py_int_io (argv ! 3)) (\<lambda>x.
           io_bind (py_int_io (argv ! 4)) (\<lambda>y. move_window i x y (c_answer env))))
         else if command = ''resize'' \<and> length argv > 4 then
           io_bind (py_int_io (argv ! 2)) (\<lambda>i.
           io_bind (py_int_io (argv ! 3)) (\<lambda>w.
           io_bind (py_int_io (argv ! 4)) (\<lambda>h. resize_window i w h (c_answer env))))
         else io_return ()))"

section \<open>The graphical tool: \<open>cursor-gui.py\<close>\<close>

text \<open>Its \<open>run_osascript\<close> does not exit when access is denied: it shows an error dialog
  and returns \<open>None\<close>.\<close>

definition gui_run_osascript :: "os_cmd \<Rightarrow> osa \<Rightarrow> string option io" where
  "gui_run_osascript cmd answer =
     (case answer of
        Denied \<Rightarrow> ([Script cmd, ShowError], Inr None)
      | Failed \<Rightarrow> ([Script cmd], Inr None)
      | Out s \<Rightarrow> ([Script cmd], Inr (Some s)))"

fun gui_window_loop :: "win_answers \<Rightarrow> int list \<Rightarrow> window_dict list io" where
  "gui_window_loop ans [] = io_return []"
| "gui_window_loop ans (i # rest) =
     io_bind (gui_run_osascript (GetName i) (a_name ans i)) (\<lambda>name.
     io_bind (gui_run_osascript (GetPosition i) (a_position ans i)) (\<lambda>pos.
     io_bind (opt_int_list pos) (\<lambda>position.
     io_bind (gui_run_osascript (GetSize i) (a_size ans i)) (\<lambda>size.
     io_bind (opt_int_list size) (\<lambda>size_list.
     io_bind (gui_run_osascript (GetMinimized i) (a_minimized ans i)) (\<lambda>m.
     io_bind (gui_window_loop ans rest) (\<lambda>windows.
     io_return
       (\<lparr>d_index = i, d_title = or_else name ''Unknown'', d_position = position,
         d_size = size_list, d_minimized = (m = Some ''true'')\<rparr> # windows))))))))"

definition get_windows :: "win_answers \<Rightarrow> window_dict list io" where
  "get_windows ans =
     io_bind (gui_run_osascript ProcessRunning (a_running ans)) (\<lambda>r.
       if r \<noteq> Some ''true'' then io_return []
       else
         io_bind (gui_run_osascript CountWindows (a_count ans)) (\<lambda>count_result.
           if or_else count_result [] = [] \<or> \<not> py_isdigit (or_else count_result [])
           then io_return []
           else
             io_bind (py_int_io (or_else count_result [])) (\<lambda>window_count.
             gui_window_loop ans [1..window_count])))"

record gui_state =
  monitoring :: bool
  windows_data :: "window_dict list"

text \<open>What the user and the system put in when a button is pressed: the selected row of
  the list (if any), the answer to the confirmation dialog (if it is asked), the four
  entry fields, the answer to the call of the action, and the answers to the enumeration
  of the refresh that follows.\<close>

record gui_input =
  i_selection :: "nat option"
  i_confirm :: bool
  i_x_entry :: string
  i_y_entry :: string
  i_w_entry :: string
  i_h_entry :: string
  i_answer :: osa
  i_refresh :: win_answers

definition refresh_windows :: "gui_state \<Rightarrow> win_answers \<Rightarrow> gui_state io" where
  "refresh_windows st ans =
     io_bind (get_windows ans) (\<lambda>windows. io_return (st\<lparr>windows_data := windows\<rparr>))"

definition get_selected_window_index :: "gui_state \<Rightarrow> nat option \<Rightarrow> int option io" where
  "get_selected_window_index st selection =
     (case selection of
        None \<Rightarrow> ([ShowWarning], Inr None)
      | Some list_index \<Rightarrow>
          if list_index < length (windows_data st)
          then io_return (Some (d_index (windows_data st ! list_index)))
          else io_return None)"

definition askyesno :: "bool \<Rightarrow> bool io" where
  "askyesno answer = ([AskYesNo], Inr answer)"

definition showerror :: "unit io" where
  "showerror = ([ShowError], Inr ())"

text \<open>\<open>try: body except ValueError: handler\<close>.\<close>

definition try_except_ValueError :: "'a io \<Rightarrow> 'a io \<Rightarrow> 'a io" where
  "try_except_ValueError body handler =
     (case body of
        (evs, Inl ValueError) \<Rightarrow> (case handler of (evs', r) \<Rightarrow> (evs @ evs', r))
      | _ \<Rightarrow> body)"

text \<open>In the three handlers below \<open>if index:\<close> holds for an index that is an integer
  other than zero.\<close>

definition gui_close_window :: "gui_state \<Rightarrow> gui_input \<Rightarrow> gui_state io" where
  "gui_close_window st inp =
     io_bind (get_selected_window_index st (i_selection inp)) (\<lambda>index.
       case index of
         None \<Rightarrow> io_return st
       | Some i \<Rightarrow>
           if i \<noteq> 0 then
             io_bind (askyesno (i_confirm inp)) (\<lambda>yes.
               if yes then
                 io_bind (gui_run_osascript (ClickButton1 i) (i_answer inp)) (\<lambda>_.
                 refresh_windows st (i_refresh inp))
               else io_return st)
           else io_return st)"

definition gui_move_window :: "gui_state \<Rightarrow> gui_input \<Rightarrow> gui_state io" where
  "gui_move_window st inp =
     io_bind (get_selected_window_index st (i_selection inp)) (\<lambda>index.
       case index of
         None \<Rightarrow> io_return st
       | Some i \<Rightarrow>
           if i \<noteq> 0 then
             try_except_ValueError
               (io_bind (py_int_io (i_x_entry inp)) (\<lambda>x.
                io_bind (py_int_io (i_y_entry inp)) (\<lambda>y.
                io_bind (gui_run_osascript (SetPosition i x y) (i_answer inp)) (\<lambda>_.
                refresh_windows st (i_refresh inp)))))
               (io_bind showerror (\<lambda>_. io_return st))
           else io_return st)"

definition gui_resize_window :: "gui_state \<Rightarrow> gui_input \<Rightarrow> gui_state io" where
  "gui_resize_window st inp =
     io_bind (get_selected_window_index st (i_selection inp)) (\<lambda>index.
       case index of
         None \<Rightarrow> io_return st
       | Some i \<Rightarrow>
           if i \<noteq> 0 then
             try_except_ValueError
               (io_bind (py_int_io (i_w_entry inp)) (\<lambda>w.
                io_bind (py_int_io (i_h_entry inp)) (\<lambda>h.
                io_bind (gui_run_osascript (SetSize i w h) (i_answer inp)) (\<lambda>_.
                refresh_windows st (i_refresh inp)))))
               (io_bind showerror (\<lambda>_. io_return st))
           else io_return st)"

section \<open>Closing, moving and resizing a window\<close>

subsection \<open>No script of the monitors closes a window\<close>

lemma closed_mon_window_step: "closed_windows (fst (mon_window_step env s w)) = []"
  by (simp add: mon_window_step_def Let_def mon_check_for_claude4_io_def
      mon_check_for_options_menu_io_def mon_get_window_ui_elements_def select_option_2_def
      fst_io_bind fst_io_return closed_windows_append closed_run_osascript split: sum.splits)

lemma closed_mon_for_windows: "closed_windows (fst (mon_for_windows env s ws)) = []"
proof (induction ws arbitrary: s)
  case Nil
  show ?case by (simp add: fst_io_return)
next
  case (Cons w ws)
  then show ?case
    by (simp add: fst_io_bind closed_windows_append closed_mon_window_step split: sum.splits)
qed

lemma closed_mon_window_loop: "closed_windows (fst (mon_window_loop env idxs)) = []"
proof (induction idxs)
  case Nil
  show ?case by (simp add: fst_io_return)
next
  case (Cons i rest)
  then show ?case
    by (simp add: fst_io_bind closed_windows_append closed_run_osascript fst_io_return
        split: sum.splits)
qed

lemma closed_mon_get_cursor_windows: "closed_windows (fst (mon_get_cursor_windows env)) = []"
  by (simp add: mon_get_cursor_windows_def fst_io_bind closed_windows_append
      closed_run_osascript closed_mon_window_loop fst_io_return fst_py_int_io split: sum.splits)

lemma closed_mon_cycle: "closed_windows (fst (mon_cycle env s)) = []"
  by (simp add: mon_cycle_def fst_io_bind closed_windows_append closed_mon_get_cursor_windows
      closed_mon_for_windows fst_io_return split: sum.splits)

lemma closed_mon_cycles: "closed_windows (fst (mon_cycles s envs)) = []"
proof (induction envs arbitrary: s)
  case Nil
  show ?case by (simp add: fst_io_return)
next
  case (Cons env envs)
  then show ?case
    by (simp add: fst_io_bind closed_windows_append closed_mon_cycle split: sum.splits)
qed

lemma closed_ocr_for_windows: "closed_windows (fst (ocr_for_windows env s ws)) = []"
  by (induction ws) (simp_all add: ocr_for_windows_eq ocr_window_step_eq closed_windows_append)

lemma closed_ocr_cycle: "closed_windows (fst (ocr_cycle env s)) = []"
  using scripts_selected [OF ocr_get_cursor_windows_scripts [of env]]
  by (simp add: ocr_cycle_def fst_io_bind closed_windows_append closed_ocr_for_windows
      split: sum.splits)

lemma closed_ocr_cycles: "closed_windows (fst (ocr_cycles s envs)) = []"
proof (induction envs arbitrary: s)
  case Nil
  show ?case by (simp add: fst_io_return)
next
  case (Cons env envs)
  then show ?case
    by (simp add: fst_io_bind closed_windows_append closed_ocr_cycle split: sum.splits)
qed

subsection \<open>The command line tool opens no dialog\<close>

definition is_script :: "event \<Rightarrow> bool" where
  "is_script ev = (case ev of Script cmd \<Rightarrow> True | _ \<Rightarrow> False)"

lemma scripts_bind:
  assumes "list_all is_script (fst m)" "\<And>x. list_all is_script (fst (f x))"
  shows "list_all is_script (fst (io_bind m f))"
  using assms by (simp add: fst_io_bind split: sum.splits)

lemma scripts_return: "list_all is_script (fst (io_return x))"
  by (simp add: fst_io_return)

lemma scripts_run_osascript: "list_all is_script (fst (run_osascript cmd answer))"
  by (simp add: fst_run_osascript is_script_def)

lemma scripts_py_int_io: "list_all is_script (fst (py_int_io c))"
  by (simp add: fst_py_int_io)

lemma scripts_int_list: "list_all is_script (fst (int_list ps))"
  by (induction ps) (simp_all add: scripts_bind scripts_return scripts_py_int_io)

lemma scripts_opt_int_list: "list_all is_script (fst (opt_int_list r))"
  by (simp add: opt_int_list_def scripts_bind scripts_return scripts_int_list)

lemma scripts_get_window_info: "list_all is_script (fst (get_window_info ans i))"
  unfolding get_window_info_def
  by (intro scripts_bind scripts_return scripts_run_osascript scripts_opt_int_list)

lemma scripts_window_info_loop: "list_all is_script (fst (window_info_loop ans idxs))"
  by (induction idxs) (simp_all add: scripts_bind scripts_return scripts_get_window_info)

lemma scripts_list_all_windows: "list_all is_script (fst (list_all_windows ans))"
  by (simp add: list_all_windows_def is_cursor_running_def get_window_count_def scripts_bind
      scripts_return scripts_run_osascript scripts_py_int_io scripts_window_info_loop)

lemma scripts_sleep: "list_all is_script (fst (sleep secs))"
  by (simp add: sleep_def io_raise_def io_return_def)

lemma scripts_monitor_windows:
  "list_all is_script (fst (monitor_windows interval previous_state polls))"
  by (induction polls arbitrary: previous_state)
     (simp_all add: scripts_bind scripts_return scripts_list_all_windows scripts_sleep)

lemma scripts_act: "list_all is_script (fst (act cmd answer))"
  by (simp add: act_def scripts_bind scripts_return scripts_run_osascript)

lemma scripts_cli_main: "list_all is_script (fst (cli_main argv env))"
  by (simp add: cli_main_def Let_def scripts_bind scripts_return scripts_py_int_io
      scripts_list_all_windows scripts_monitor_windows scripts_act focus_window_def
      minimize_window_def unminimize_window_def close_window_def move_window_def
      resize_window_def)

lemma cli_close:
  assumes "py_lower c = ''close''" "py_int a = Some i"
  shows "cli_main (prog # c # a # rest) env =
     ([Script (ClickButton1 i)], case c_answer env of Denied \<Rightarrow> Inl SystemExit | _ \<Rightarrow> Inr ())"
  using assms
  by (cases "c_answer env")
     (simp_all add: cli_main_def Let_def py_int_io_def io_bind_def io_return_def close_window_def
        act_def run_osascript_def)

subsection \<open>The graphical tool\<close>

lemma get_selected_window_index_cases:
  "get_selected_window_index st selection =
     (case selection of
        None \<Rightarrow> ([ShowWarning], Inr None)
      | Some k \<Rightarrow> ([], Inr (if k < length (windows_data st)
                              then Some (d_index (windows_data st ! k)) else None)))"
  by (simp add: get_selected_window_index_def io_return_def split: option.splits)

lemma closed_gui_run_osascript:
  "closed_windows (fst (gui_run_osascript cmd answer)) = (case cmd of ClickButton1 i \<Rightarrow> [i] | _ \<Rightarrow> [])"
  by (cases cmd; cases answer) (simp_all add: gui_run_osascript_def)

lemma closed_int_list: "closed_windows (fst (int_list ps)) = []"
  by (induction ps)
     (simp_all add: fst_io_bind fst_io_return fst_py_int_io closed_windows_append
        split: sum.splits)

lemma closed_opt_int_list: "closed_windows (fst (opt_int_list r)) = []"
  by (simp add: opt_int_list_def fst_io_bind fst_io_return closed_int_list closed_windows_append
      split: sum.splits)

lemma closed_gui_window_loop: "closed_windows (fst (gui_window_loop ans idxs)) = []"
proof (induction idxs)
  case Nil
  show ?case by (simp add: fst_io_return)
next
  case (Cons i rest)
  then show ?case
    by (simp add: fst_io_bind closed_windows_append closed_gui_run_osascript
        closed_opt_int_list fst_io_return split: sum.splits)
qed

lemma closed_get_windows: "closed_windows (fst (get_windows ans)) = []"
  by (simp add: get_windows_def fst_io_bind closed_windows_append closed_gui_run_osascript
      closed_gui_window_loop fst_io_return fst_py_int_io split: sum.splits)

lemma closed_refresh_windows: "closed_windows (fst (refresh_windows st ans)) = []"
  by (simp add: refresh_windows_def fst_io_bind closed_windows_append closed_get_windows
      fst_io_return split: sum.splits)

lemma gui_close_window_events:
  "fst (gui_close_window st inp) =
     (case i_selection inp of
        None \<Rightarrow> [ShowWarning]
      | Some k \<Rightarrow>
          if k < length (windows_data st) \<and> d_index (windows_data st ! k) \<noteq> 0 then
            AskYesNo #
              (if i_confirm inp
               then fst (gui_run_osascript (ClickButton1 (d_index (windows_data st ! k)))
                           (i_answer inp))
                    @ fst (refresh_windows st (i_refresh inp))
               else [])
          else [])"
  by (cases "i_answer inp")
     (simp_all add: gui_close_window_def get_selected_window_index_cases io_bind_def io_return_def
      askyesno_def gui_run_osascript_def split: option.splits prod.splits sum.splits)

lemma gui_close_confirmed:
  assumes "closed_windows (fst (gui_close_window st inp)) \<noteq> []"
  shows "i_confirm inp \<and> (\<exists>i rest. fst (gui_close_window st inp)
            = AskYesNo # Script (ClickButton1 i) # rest \<and> closed_windows rest = [])"
proof -
  from assms obtain k where k: "i_selection inp = Some k"
    "k < length (windows_data st) \<and> d_index (windows_data st ! k) \<noteq> 0" "i_confirm inp"
    by (auto simp: gui_close_window_events split: option.splits if_splits)
  define i where "i = d_index (windows_data st ! k)"
  have "fst (gui_close_window st inp) =
      AskYesNo # Script (ClickButton1 i)
        # (case i_answer inp of Denied \<Rightarrow> [ShowError] | _ \<Rightarrow> [])
        @ fst (refresh_windows st (i_refresh inp))"
    using k by (cases "i_answer inp") (simp_all add: gui_close_window_events i_def
        gui_run_osascript_def)
  moreover have "closed_windows ((case i_answer inp of Denied \<Rightarrow> [ShowError] | _ \<Rightarrow> [])
        @ fst (refresh_windows st (i_refresh inp))) = []"
    by (cases "i_answer inp") (simp_all add: closed_windows_append closed_refresh_windows)
  ultimately show ?thesis using k(3) by blast
qed

text \<open>The enumeration of the graphical tool raises nothing but \<open>ValueError\<close>.\<close>

definition only_ValueError :: "'a io \<Rightarrow> bool" where
  "only_ValueError m = (case snd m of Inl e \<Rightarrow> e = ValueError | Inr x \<Rightarrow> True)"

lemma only_ValueError_bind:
  assumes "only_ValueError m" "\<And>x. only_ValueError (f x)"
  shows "only_ValueError (io_bind m f)"
proof (cases m)
  case (Pair evs r)
  show ?thesis
  proof (cases r)
    case (Inl e)
    with Pair assms(1) show ?thesis by (simp add: only_ValueError_def io_bind_def)
  next
    case (Inr x)
    with Pair assms(2) [of x] show ?thesis
      by (cases "f x") (simp add: only_ValueError_def io_bind_def)
  qed
qed

lemma only_ValueError_return: "only_ValueError (io_return x)"
  by (simp add: only_ValueError_def io_return_def)

lemma only_ValueError_py_int_io: "only_ValueError (py_int_io c)"
  by (simp add: only_ValueError_def py_int_io_def io_return_def io_raise_def
      split: option.splits)

lemma only_ValueError_gui_run_osascript: "only_ValueError (gui_run_osascript cmd answer)"
  by (cases answer) (simp_all add: only_ValueError_def gui_run_osascript_def)

lemma only_ValueError_int_list: "only_ValueError (int_list ps)"
  by (induction ps)
     (simp_all add: only_ValueError_bind only_ValueError_return only_ValueError_py_int_io)

lemma only_ValueError_opt_int_list: "only_ValueError (opt_int_list r)"
  by (simp add: opt_int_list_def only_ValueError_bind only_ValueError_return
      only_ValueError_int_list)

lemma only_ValueError_gui_window_loop: "only_ValueError (gui_window_loop ans idxs)"
proof (induction idxs)
  case Nil
  show ?case by (simp add: only_ValueError_return)
next
  case (Cons i rest)
  show ?case
    unfolding gui_window_loop.simps
    by (intro only_ValueError_bind only_ValueError_return only_ValueError_gui_run_osascript
        only_ValueError_opt_int_list Cons.IH)
qed

lemma only_ValueError_get_windows: "only_ValueError (get_windows ans)"
  by (simp add: get_windows_def only_ValueError_bind only_ValueError_return
      only_ValueError_gui_run_osascript only_ValueError_py_int_io
      only_ValueError_gui_window_loop)

lemma only_ValueError_refresh_windows: "only_ValueError (refresh_windows st ans)"
  by (simp add: refresh_windows_def only_ValueError_bind only_ValueError_return
      only_ValueError_get_windows)

lemma try_except_ValueError_returns:
  assumes "only_ValueError body" "handler = (evs', Inr y)"
  shows "\<exists>evs x. try_except_ValueError body handler = (evs, Inr x)"
proof (cases body)
  case (Pair evs r)
  show ?thesis
  proof (cases r)
    case (Inl e)
    with Pair assms(1) have "e = ValueError" by (simp add: only_ValueError_def)
    with Pair Inl assms(2) show ?thesis by (simp add: try_except_ValueError_def)
  next
    case (Inr x)
    with Pair show ?thesis by (simp add: try_except_ValueError_def)
  qed
qed

lemma gui_move_window_returns: "\<exists>evs st'. gui_move_window st inp = (evs, Inr st')"
proof -
  have body: "only_ValueError
      (io_bind (py_int_io (i_x_entry inp)) (\<lambda>x.
       io_bind (py_int_io (i_y_entry inp)) (\<lambda>y.
       io_bind (gui_run_osascript (SetPosition i x y) (i_answer inp)) (\<lambda>_.
       refresh_windows st (i_refresh inp)))))" for i
    by (intro only_ValueError_bind only_ValueError_py_int_io only_ValueError_gui_run_osascript
        only_ValueError_refresh_windows)
  have handler: "io_bind showerror (\<lambda>_. io_return st) = ([ShowError], Inr st)"
    by (simp add: showerror_def io_bind_def io_return_def)
  show ?thesis
    using try_except_ValueError_returns [OF body handler]
    by (auto simp: gui_move_window_def get_selected_window_index_cases io_bind_def io_return_def
        split: option.splits prod.splits)
qed

lemma gui_resize_window_returns: "\<exists>evs st'. gui_resize_window st inp = (evs, Inr st')"
proof -
  have body: "only_ValueError
      (io_bind (py_int_io (i_w_entry inp)) (\<lambda>w.
       io_bind (py_int_io (i_h_entry inp)) (\<lambda>h.
       io_bind (gui_run_osascript (SetSize i w h) (i_answer inp)) (\<lambda>_.
       refresh_windows st (i_refresh inp)))))" for i
    by (intro only_ValueError_bind only_ValueError_py_int_io only_ValueError_gui_run_osascript
        only_ValueError_refresh_windows)
  have handler: "io_bind showerror (\<lambda>_. io_return st) = ([ShowError], Inr st)"
    by (simp add: showerror_def io_bind_def io_return_def)
  show ?thesis
    using try_except_ValueError_returns [OF body handler]
    by (auto simp: gui_resize_window_def get_selected_window_index_cases io_bind_def io_return_def
        split: option.splits prod.splits)
qed

lemma bad_pair_raises:
  assumes "py_int a = None \<or> py_int b = None"
  shows "io_bind (py_int_io a) (\<lambda>x. io_bind (py_int_io b) (\<lambda>y. f x y)) = ([], Inl ValueError)"
  using assms
  by (auto simp: py_int_io_def io_bind_def io_raise_def io_return_def split: option.splits)

lemma io_bind_pair_Inr: "io_bind (evs, Inr x) f = (evs @ fst (f x), snd (f x))"
  by (simp add: io_bind_def split: prod.splits)

lemma caught_ValueError:
  "try_except_ValueError ([], Inl ValueError) (io_bind showerror (\<lambda>_. ([], Inr st)))
     = ([ShowError], Inr st)"
  by (simp add: try_except_ValueError_def showerror_def io_bind_def)

lemma gui_move_window_bad_entry:
  assumes "py_int (i_x_entry inp) = None \<or> py_int (i_y_entry inp) = None"
  shows "gui_move_window st inp =
     (case i_selection inp of
        None \<Rightarrow> ([ShowWarning], Inr st)
      | Some k \<Rightarrow>
          if k < length (windows_data st) \<and> d_index (windows_data st ! k) \<noteq> 0
          then ([ShowError], Inr st)
          else ([], Inr st))"
  by (simp add: gui_move_window_def get_selected_window_index_cases
      bad_pair_raises [OF assms] caught_ValueError io_bind_pair_Inr io_return_def
      split: option.splits)

lemma gui_resize_window_bad_entry:
  assumes "py_int (i_w_entry inp) = None \<or> py_int (i_h_entry inp) = None"
  shows "gui_resize_window st inp =
     (case i_selection inp of
        None \<Rightarrow> ([ShowWarning], Inr st)
      | Some k \<Rightarrow>
          if k < length (windows_data st) \<and> d_index (windows_data st ! k) \<noteq> 0
          then ([ShowError], Inr st)
          else ([], Inr st))"
  by (simp add: gui_resize_window_def get_selected_window_index_cases
      bad_pair_raises [OF assms] caught_ValueError io_bind_pair_Inr io_return_def
      split: option.splits)

lemma cli_move_resize_bad:
  assumes "py_lower c = ''move'' \<or> py_lower c = ''resize''"
    "py_int a = None \<or> py_int x = None \<or> py_int y = None"
  shows "cli_main (prog # c # a # x # y # rest) env = ([], Inl ValueError)"
  using assms
  by (auto simp: cli_main_def Let_def py_int_io_def io_bind_def io_raise_def io_return_def
      split: option.splits)

text \<open>A system with one Cursor window of 800 by 600 at the origin; the graphical tool
  showing that window, with its row selected, the confirmation answered with yes, and
  entries of which \<open>X\<close> and \<open>H\<close> are not numbers; and an invocation of the command line
  tool whose call succeeds.\<close>

definition one_window_answers :: win_answers where
  "one_window_answers =
     \<lparr>a_running = Out ''true'', a_count = Out ''1'', a_name = (\<lambda>i. Out ''Cursor''),
      a_position = (\<lambda>i. Out ''0, 0''), a_size = (\<lambda>i. Out ''800, 600''),
      a_minimized = (\<lambda>i. Out ''false'')\<rparr>"

definition gui_st0 :: gui_state where
  "gui_st0 =
     \<lparr>monitoring = False,
      windows_data = [\<lparr>d_index = 1, d_title = ''Cursor'', d_position = Some [0, 0],
                       d_size = Some [800, 600], d_minimized = False\<rparr>]\<rparr>"

definition gui_inp0 :: gui_input where
  "gui_inp0 =
     \<lparr>i_selection = Some 0, i_confirm = True, i_x_entry = ''abc'', i_y_entry = ''5'',
      i_w_entry = ''800'', i_h_entry = ''6oo'', i_answer = Out [],
      i_refresh = one_window_answers\<rparr>"

definition cli_env0 :: cli_env where
  "cli_env0 = \<lparr>c_answer = Out [], c_list = one_window_answers, c_polls = [one_window_answers]\<rparr>"

text \<open>
  C3 (as amended). In the graphical tool a close command is issued only after the
  confirmation dialog was shown and answered with yes: the events of the handler then
  begin with the dialog, followed at once by the one close command. The command line
  tool never opens a confirmation dialog, whatever its arguments; its \<open>close\<close> command
  with a numeric index issues the close command straight away. No run of either
  autoresponder script issues a close command.
\<close>

theorem close_confirmation:
  "(closed_windows (fst (gui_close_window st inp)) \<noteq> [] \<longrightarrow>
      i_confirm inp
      \<and> (\<exists>k after. fst (gui_close_window st inp) = AskYesNo # Script (ClickButton1 k) # after
            \<and> closed_windows after = []))
   \<and> AskYesNo \<notin> set (fst (cli_main argv env))
   \<and> (py_lower c = ''close'' \<and> py_int a = Some i \<longrightarrow>
        cli_main (prog # c # a # rest) cenv =
          ([Script (ClickButton1 i)],
           case c_answer cenv of Denied \<Rightarrow> Inl SystemExit | _ \<Rightarrow> Inr ()))
   \<and> closed_windows (fst (mon_cycles s menvs)) = []
   \<and> closed_windows (fst (ocr_cycles os oenvs)) = []"
proof (intro conjI impI)
  assume "closed_windows (fst (gui_close_window st inp)) \<noteq> []"
  from gui_close_confirmed [OF this]
  show "i_confirm inp"
    "\<exists>k after. fst (gui_close_window st inp) = AskYesNo # Script (ClickButton1 k) # after
            \<and> closed_windows after = []"
    by blast+
next
  have "is_script ev" if "ev \<in> set (fst (cli_main argv env))" for ev
    using scripts_cli_main [of argv env] that by (simp add: list_all_iff)
  from this [of AskYesNo] show "AskYesNo \<notin> set (fst (cli_main argv env))"
    by (auto simp: is_script_def)
next
  assume "py_lower c = ''close'' \<and> py_int a = Some i"
  then show "cli_main (prog # c # a # rest) cenv =
          ([Script (ClickButton1 i)],
           case c_answer cenv of Denied \<Rightarrow> Inl SystemExit | _ \<Rightarrow> Inr ())"
    using cli_close [of c a i prog rest cenv] by blast
next
  show "closed_windows (fst (mon_cycles s menvs)) = []" by (rule closed_mon_cycles)
next
  show "closed_windows (fst (ocr_cycles os oenvs)) = []" by (rule closed_ocr_cycles)
qed

theorem close_confirmation_counterexample:
  "cli_main [''cursor-window-monitor.py'', ''close'', ''1''] cli_env0
     = ([Script (ClickButton1 1)], Inr ())
   \<and> closed_windows (fst (cli_main [''cursor-window-monitor.py'', ''close'', ''1''] cli_env0)) = [1]
   \<and> AskYesNo \<notin> set (fst (cli_main [''cursor-window-monitor.py'', ''close'', ''1''] cli_env0))"
  by code_simp

theorem close_confirmation_witness:
  "fst (gui_close_window gui_st0 gui_inp0)
     = [AskYesNo, Script (ClickButton1 1), Script ProcessRunning, Script CountWindows,
        Script (GetName 1), Script (GetPosition 1), Script (GetSize 1), Script (GetMinimized 1)]
   \<and> i_confirm gui_inp0
   \<and> (\<exists>k after. fst (gui_close_window gui_st0 gui_inp0)
          = AskYesNo # Script (ClickButton1 k) # after \<and> closed_windows after = [])
   \<and> fst (gui_close_window gui_st0 (gui_inp0\<lparr>i_confirm := False\<rparr>)) = [AskYesNo]
   \<and> AskYesNo \<notin> set (fst (cli_main [''cursor-window-monitor.py'', ''Close'', '' 1''] cli_env0))
   \<and> cli_main [''cursor-window-monitor.py'', ''Close'', '' 1''] cli_env0
       = ([Script (ClickButton1 1)], Inr ())
   \<and> closed_windows (fst (mon_cycles fresh_mon_state [one_window_env ''claude 4'' ''[1][2][3]'']))
       = []
   \<and> closed_windows (fst (ocr_cycles fresh_ocr_state [two_windows_env])) = []"
proof -
  let ?argv = "[''cursor-window-monitor.py'', ''Close'', '' 1'']"
  have ev: "fst (gui_close_window gui_st0 gui_inp0)
     = [AskYesNo, Script (ClickButton1 1), Script ProcessRunning, Script CountWindows,
        Script (GetName 1), Script (GetPosition 1), Script (GetSize 1), Script (GetMinimized 1)]"
    by code_simp
  have no: "fst (gui_close_window gui_st0 (gui_inp0\<lparr>i_confirm := False\<rparr>)) = [AskYesNo]"
    by code_simp
  have h1: "closed_windows (fst (gui_close_window gui_st0 gui_inp0)) \<noteq> []"
    unfolding ev by simp
  have h2: "py_lower ''Close'' = ''close'' \<and> py_int '' 1'' = Some 1"
    by code_simp
  have a: "c_answer cli_env0 = Out []" by (simp add: cli_env0_def)
  note th = close_confirmation [of gui_st0 gui_inp0 ?argv cli_env0 "''Close''" "'' 1''" 1
      "''cursor-window-monitor.py''" "[]" cli_env0 fresh_mon_state
      "[one_window_env ''claude 4'' ''[1][2][3]'']" fresh_ocr_state "[two_windows_env]"]
  have c1: "i_confirm gui_inp0
      \<and> (\<exists>k after. fst (gui_close_window gui_st0 gui_inp0)
            = AskYesNo # Script (ClickButton1 k) # after \<and> closed_windows after = [])"
    using th h1 by (simp only: simp_thms)
  have c2: "AskYesNo \<notin> set (fst (cli_main ?argv cli_env0))"
    using th by (simp only: simp_thms)
  have c3: "cli_main ?argv cli_env0 = ([Script (ClickButton1 1)], Inr ())"
    using th h2 unfolding a by simp
  have c4: "closed_windows (fst (mon_cycles fresh_mon_state
        [one_window_env ''claude 4'' ''[1][2][3]''])) = []"
    using th by (simp only: simp_thms)
  have c5: "closed_windows (fst (ocr_cycles fresh_ocr_state [two_windows_env])) = []"
    using th by (simp only: simp_thms)
  from ev c1 no c2 c3 c4 c5 show ?thesis by (intro conjI) blast+
qed

text \<open>
  C4 (as amended). In the graphical tool a move or a resize whose entry is not a number
  raises nothing: with a window selected the handler shows one error dialog, issues no
  command and leaves the state as it is (with nothing selected it shows the warning of
  the selection, and with a stale selection nothing); and for every input at all a move
  or a resize of the graphical tool returns without an exception. In the command line
  tool a \<open>move\<close> or \<open>resize\<close> with an argument that is not a number ends the program
  with an uncaught \<open>ValueError\<close>, before any command is issued.
\<close>

theorem non_numeric_input:
  "(py_int (i_x_entry inp) = None \<or> py_int (i_y_entry inp) = None \<longrightarrow>
      gui_move_window st inp =
        (case i_selection inp of
           None \<Rightarrow> ([ShowWarning], Inr st)
         | Some k \<Rightarrow>
             if k < length (windows_data st) \<and> d_index (windows_data st ! k) \<noteq> 0
             then ([ShowError], Inr st)
             else ([], Inr st)))
   \<and> (py_int (i_w_entry inp) = None \<or> py_int (i_h_entry inp) = None \<longrightarrow>
        gui_resize_window st inp =
          (case i_selection inp of
             None \<Rightarrow> ([ShowWarning], Inr st)
           | Some k \<Rightarrow>
               if k < length (windows_data st) \<and> d_index (windows_data st ! k) \<noteq> 0
               then ([ShowError], Inr st)
               else ([], Inr st)))
   \<and> (\<exists>evs st'. gui_move_window st inp = (evs, Inr st'))
   \<and> (\<exists>evs st'. gui_resize_window st inp = (evs, Inr st'))
   \<and> ((py_lower c = ''move'' \<or> py_lower c = ''resize'')
        \<and> (py_int a = None \<or> py_int x = None \<or> py_int y = None) \<longrightarrow>
        cli_main (prog # c # a # x # y # rest) env = ([], Inl ValueError))"
  using gui_move_window_bad_entry [of inp st] gui_resize_window_bad_entry [of inp st]
    gui_move_window_returns [of st inp] gui_resize_window_returns [of st inp]
    cli_move_resize_bad [of c a x y prog rest env]
  by blast

theorem non_numeric_input_counterexample:
  "py_int ''abc'' = None
   \<and> cli_main [''cursor-window-monitor.py'', ''move'', ''1'', ''abc'', ''5''] cli_env0
       = ([], Inl ValueError)
   \<and> cli_main [''cursor-window-monitor.py'', ''resize'', ''1'', ''800'', ''6oo''] cli_env0
       = ([], Inl ValueError)"
  by code_simp

theorem non_numeric_input_witness:
  "gui_move_window gui_st0 gui_inp0 = ([ShowError], Inr gui_st0)
   \<and> gui_resize_window gui_st0 gui_inp0 = ([ShowError], Inr gui_st0)
   \<and> (\<exists>evs st'. gui_move_window gui_st0 (gui_inp0\<lparr>i_x_entry := ''7''\<rparr>) = (evs, Inr st'))
   \<and> (\<exists>evs st'. gui_resize_window gui_st0 (gui_inp0\<lparr>i_h_entry := ''600''\<rparr>) = (evs, Inr st'))
   \<and> cli_main [''cursor-window-monitor.py'', ''MOVE'', ''1'', ''abc'', ''5'', ''6''] cli_env0
       = ([], Inl ValueError)"
proof -
  have h1: "py_int (i_x_entry gui_inp0) = None \<or> py_int (i_y_entry gui_inp0) = None"
    by code_simp
  have h2: "py_int (i_w_entry gui_inp0) = None \<or> py_int (i_h_entry gui_inp0) = None"
    by code_simp
  have h3: "(py_lower ''MOVE'' = ''move'' \<or> py_lower ''MOVE'' = ''resize'')
      \<and> (py_int ''1'' = None \<or> py_int ''abc'' = None \<or> py_int ''5'' = None)"
    by code_simp
  have sel: "i_selection gui_inp0 = Some 0"
    "(0::nat) < length (windows_data gui_st0) \<and> d_index (windows_data gui_st0 ! 0) \<noteq> 0"
    by (simp_all add: gui_inp0_def gui_st0_def)
  note th = non_numeric_input [of gui_inp0 gui_st0 "''MOVE''" "''1''" "''abc''" "''5''"
      "''cursor-window-monitor.py''" "[''6'']" cli_env0]
  have c1: "gui_move_window gui_st0 gui_inp0 = ([ShowError], Inr gui_st0)"
    using th h1 sel by simp
  have c2: "gui_resize_window gui_st0 gui_inp0 = ([ShowError], Inr gui_st0)"
    using th h2 sel by simp
  have c5: "cli_main [''cursor-window-monitor.py'', ''MOVE'', ''1'', ''abc'', ''5'', ''6''] cli_env0
       = ([], Inl ValueError)"
    using th h3 by (simp only: simp_thms)
  have c3: "\<exists>evs st'. gui_move_window gui_st0 (gui_inp0\<lparr>i_x_entry := ''7''\<rparr>) = (evs, Inr st')"
    using non_numeric_input [of "gui_inp0\<lparr>i_x_entry := ''7''\<rparr>" gui_st0] by blast
  have c4: "\<exists>evs st'. gui_resize_window gui_st0 (gui_inp0\<lparr>i_h_entry := ''600''\<rparr>) = (evs, Inr st')"
    using non_numeric_input [of "gui_inp0\<lparr>i_h_entry := ''600''\<rparr>" gui_st0] by blast
  from c1 c2 c3 c4 c5 show ?thesis by (intro conjI)
qed

end
